theory Spec2Isabelle
  imports Main "HOL-Library.Sublist" "HOL-Library.Char_ord" "HOL-Library.List_Lexorder"
begin

section \<open>JavaScript strings and insertion-ordered maps\<close>

text \<open>
  A JavaScript string is modelled as a \<^typ>\<open>string\<close>; one \<^typ>\<open>char\<close> stands for one code
  unit, and the 256 values of \<^typ>\<open>char\<close> are the code units below \<open>U+0100\<close> (Basic Latin and
  Latin-1 Supplement); a text with a unit from \<open>U+0100\<close> on is not a \<^typ>\<open>string\<close>.
  \<open>toLowerCase\<close> maps these units among themselves: the letters
  \<open>A\<close> to \<open>Z\<close> and the units \<open>U+00C0\<close> to \<open>U+00DE\<close>, the multiplication sign \<open>U+00D7\<close>
  apart, go to the unit 32 above, and every other unit stays. \<open>toUpperCase\<close> does not (the
  upper-case forms of \<open>U+00DF\<close>, \<open>U+00B5\<close> and \<open>U+00FF\<close> are other texts), so it is not a table
  here: the one function that calls it, \<open>pascalCase\<close>, takes it as an argument.
  \<open>Array.prototype.sort\<close> without a comparator orders strings by code unit, a proper prefix
  first: that is the lexicographic order of \<^typ>\<open>string\<close>.
\<close>

definition newline :: string where
  "newline = [CHR 0x0A]"

definition quote :: string where
  "quote = [CHR 0x27]"

definition dquote :: string where
  "dquote = [CHR 0x22]"

definition upperCaseUnits :: string where
  "upperCaseUnits =
     ''ABCDEFGHIJKLMNOPQRSTUVWXYZ''
     @ [CHR 0xC0, CHR 0xC1, CHR 0xC2, CHR 0xC3, CHR 0xC4, CHR 0xC5, CHR 0xC6, CHR 0xC7,
        CHR 0xC8, CHR 0xC9, CHR 0xCA, CHR 0xCB, CHR 0xCC, CHR 0xCD, CHR 0xCE, CHR 0xCF,
        CHR 0xD0, CHR 0xD1, CHR 0xD2, CHR 0xD3, CHR 0xD4, CHR 0xD5, CHR 0xD6,
        CHR 0xD8, CHR 0xD9, CHR 0xDA, CHR 0xDB, CHR 0xDC, CHR 0xDD, CHR 0xDE]"

definition lowerCaseUnits :: string where
  "lowerCaseUnits =
     ''abcdefghijklmnopqrstuvwxyz''
     @ [CHR 0xE0, CHR 0xE1, CHR 0xE2, CHR 0xE3, CHR 0xE4, CHR 0xE5, CHR 0xE6, CHR 0xE7,
        CHR 0xE8, CHR 0xE9, CHR 0xEA, CHR 0xEB, CHR 0xEC, CHR 0xED, CHR 0xEE, CHR 0xEF,
        CHR 0xF0, CHR 0xF1, CHR 0xF2, CHR 0xF3, CHR 0xF4, CHR 0xF5, CHR 0xF6,
        CHR 0xF8, CHR 0xF9, CHR 0xFA, CHR 0xFB, CHR 0xFC, CHR 0xFD, CHR 0xFE]"

definition lowerChar :: "char \<Rightarrow> char" where
  "lowerChar c =
     (case map_of (zip upperCaseUnits lowerCaseUnits) c of
        Some d \<Rightarrow> d
      | None \<Rightarrow> c)"

definition toLowerCase :: "string \<Rightarrow> string" where
  "toLowerCase s = map lowerChar s"

definition startsWith :: "string \<Rightarrow> string \<Rightarrow> bool" where
  "startsWith s p = (take (length p) s = p)"

text \<open>\<open>xs.join(sep)\<close>.\<close>

fun join :: "string \<Rightarrow> string list \<Rightarrow> string" where
  "join sep [] = []"
| "join sep [x] = x"
| "join sep (x # y # ys) = x @ sep @ join sep (y # ys)"

text \<open>
  A JavaScript \<open>Map\<close> keeps its entries in insertion order: \<open>set\<close> on a key that is present
  replaces the value where the entry stands, \<open>set\<close> on a new key appends an entry. A \<open>Set\<close>
  is the same with no values.
\<close>

type_synonym ('k, 'v) jsmap = "('k \<times> 'v) list"

fun map_set :: "('k, 'v) jsmap \<Rightarrow> 'k \<Rightarrow> 'v \<Rightarrow> ('k, 'v) jsmap" where
  "map_set [] k v = [(k, v)]"
| "map_set ((k', v') # m) k v = (if k' = k then (k, v) # m else (k', v') # map_set m k v)"

definition map_get :: "('k, 'v) jsmap \<Rightarrow> 'k \<Rightarrow> 'v option" where
  "map_get m k = map_of m k"

definition map_has :: "('k, 'v) jsmap \<Rightarrow> 'k \<Rightarrow> bool" where
  "map_has m k = (map_of m k \<noteq> None)"

definition set_add :: "'k list \<Rightarrow> 'k \<Rightarrow> 'k list" where
  "set_add s k = (if k \<in> set s then s else s @ [k])"

section \<open>The request: catalog, queries, columns\<close>

text \<open>
  The messages of \<open>gen/plugin/codegen_pb\<close>, with the fields the generator reads. An optional
  message field (\<open>column.type\<close>, \<open>param.column\<close>, \<open>input.catalog\<close>) is an \<^typ>\<open>'a option\<close>;
  of \<open>column.type\<close> only its \<open>name\<close> is read, so \<open>col_type\<close> holds that name. The fields
  keep their names, but for \<open>name\<close>, which every message has (\<open>col_name\<close>, \<open>enum_name\<close>,
  \<open>schema_name\<close>, \<open>query_name\<close>), \<open>param.column\<close> (\<open>par_column\<close>) and \<open>query.text\<close>
  (\<open>sqlText\<close>). \<open>arrayDims\<close> and \<open>number\<close> are 32-bit integers of the wire format.
\<close>

record Column =
  col_name :: string
  notNull :: bool
  isArray :: bool
  arrayDims :: int
  col_type :: "string option"

record Parameter =
  number :: int
  par_column :: "Column option"

record Enum =
  enum_name :: string
  vals :: "string list"

record Schema =
  schema_name :: string
  enums :: "Enum list"

record Catalog =
  defaultSchema :: string
  schemas :: "Schema list"

record Query =
  sqlText :: string
  query_name :: string
  cmd :: string
  columns :: "Column list"
  params :: "Parameter list"
  filename :: string

record GenerateRequest =
  catalog :: "Catalog option"
  queries :: "Query list"

text \<open>A thrown \<open>Error\<close> with its message; \<open>TypeError\<close> is what the runtime itself throws.\<close>

datatype error = Error string | TypeError

section \<open>validate.ts: assertUniqueNames\<close>

datatype NameKind = KArgument | KColumn

definition kindText :: "NameKind \<Rightarrow> string" where
  "kindText k = (case k of KArgument \<Rightarrow> ''argument'' | KColumn \<Rightarrow> ''column'')"

record UniqueNamesOptions =
  kind :: NameKind
  queryName :: string
  fileName :: string
  names :: "string list"

definition NAMED_PARAMS_DOCS_URL :: string where
  "NAMED_PARAMS_DOCS_URL = ''https://docs.sqlc.dev/en/latest/howto/named_parameters.html''"

text \<open>The loop \<open>for (const name of options.names) counts.set(name, (counts.get(name) ?? 0) + 1)\<close>.\<close>

definition countStep :: "string \<Rightarrow> (string, nat) jsmap \<Rightarrow> (string, nat) jsmap" where
  "countStep name counts =
     map_set counts name ((case map_get counts name of None \<Rightarrow> 0 | Some c \<Rightarrow> c) + 1)"

definition countNames :: "string list \<Rightarrow> (string, nat) jsmap" where
  "countNames ns = fold countStep ns []"

definition duplicatesOf :: "string list \<Rightarrow> string list" where
  "duplicatesOf ns = sort (map fst (filter (\<lambda>(name, count). count > 1) (countNames ns)))"

definition duplicateList :: "string list \<Rightarrow> string" where
  "duplicateList ds = join newline (map (\<lambda>d. ''- '' @ d) ds)"

definition assertUniqueNames :: "UniqueNamesOptions \<Rightarrow> error + unit" where
  "assertUniqueNames options =
     (let duplicates = duplicatesOf (names options) in
      if length duplicates = 0 then Inr ()
      else Inl (Error (join newline
        [''sqlc-gen-typescript: ambiguous '' @ kindText (kind options) @ '' names for query ''
           @ quote @ queryName options @ quote @ '' ('' @ fileName options @ '')'',
         '''',
         ''The TypeScript generator produced duplicate identifier(s):'',
         duplicateList duplicates,
         '''',
         ''Disambiguate using named parameters (sqlc.arg/sqlc.narg) or explicit column aliases.'',
         ''Docs: '' @ NAMED_PARAMS_DOCS_URL])))"

section \<open>The TypeScript type nodes the drivers build\<close>

datatype KeywordKind = AnyKeyword | BooleanKeyword | NumberKeyword | StringKeyword | VoidKeyword

datatype Literal = NullLiteral | StringLiteral string

text \<open>
  \<open>factory.createKeywordTypeNode\<close>, \<open>createTypeReferenceNode(createIdentifier(name), typeArgs)\<close>
  (\<open>undefined\<close> type arguments are the empty list), \<open>createArrayTypeNode\<close>,
  \<open>createUnionTypeNode\<close> and \<open>createLiteralTypeNode\<close>.
\<close>

datatype TypeNode =
    KeywordTypeNode KeywordKind
  | TypeReferenceNode string "TypeNode list"
  | ArrayTypeNode TypeNode
  | UnionTypeNode "TypeNode list"
  | LiteralTypeNode Literal

definition pgCatalog :: string where
  "pgCatalog = ''pg_catalog.''"

text \<open>\<open>if (typeName.startsWith(pgCatalog)) typeName = typeName.slice(pgCatalog.length)\<close>.\<close>

definition stripPgCatalog :: "string \<Rightarrow> string" where
  "stripPgCatalog typeName =
     (if startsWith typeName pgCatalog then drop (length pgCatalog) typeName else typeName)"

text \<open>
  The array and null wrapping every PostgreSQL \<open>columnType\<close> ends with:
  \<open>if (column.isArray || column.arrayDims > 0) { let dims = Math.max(column.arrayDims || 1);
  for (let i = 0; i < dims; i++) typ = createArrayTypeNode(typ) }\<close>, then
  \<open>column.notNull ? typ : createUnionTypeNode([typ, createLiteralTypeNode(createNull())])\<close>.
  \<open>arrayDims || 1\<close> is 1 when \<open>arrayDims\<close> is 0; the loop runs \<open>dims\<close> times, no time when
  \<open>dims\<close> is negative.
\<close>

definition arrayDimsOf :: "Column \<Rightarrow> int" where
  "arrayDimsOf c = (if arrayDims c = 0 then 1 else arrayDims c)"

definition wrapArray :: "Column \<Rightarrow> TypeNode \<Rightarrow> TypeNode" where
  "wrapArray c typ =
     (if isArray c \<or> arrayDims c > 0 then (ArrayTypeNode ^^ nat (arrayDimsOf c)) typ else typ)"

definition wrapNull :: "Column \<Rightarrow> TypeNode \<Rightarrow> TypeNode" where
  "wrapNull c typ =
     (if notNull c then typ else UnionTypeNode [typ, LiteralTypeNode NullLiteral])"

subsection \<open>drivers/postgres-common.ts: PostgresCommonDriver.columnType\<close>

text \<open>
  The \<open>switch\<close> over the lower-cased type name, its cases grouped by the type they assign;
  \<open>typ\<close> starts as \<open>string\<close> and the default case assigns \<open>any\<close>. The \<open>Driver\<close> class of the
  earlier \<open>postgres.ts\<close> has the same switch.
\<close>

definition commonNumberNames :: "string list" where
  "commonNumberNames =
     [''bigserial'', ''float4'', ''real'', ''float8'', ''float'', ''double precision'',
      ''int2'', ''smallint'', ''int4'', ''int'', ''integer'', ''int8'', ''bigint'', ''oid'',
      ''serial'', ''serial2'', ''serial4'', ''serial8'', ''smallserial'']"

definition commonStringNames :: "string list" where
  "commonStringNames =
     [''aclitem'', ''bit'', ''box'', ''bpchar'', ''cid'', ''cidr'', ''circle'', ''inet'',
      ''interval'', ''numeric'', ''decimal'', ''line'', ''lseg'', ''madaddr'', ''madaddr8'',
      ''money'', ''path'', ''pg_node_tree'', ''pg_snapshot'', ''point'', ''polygon'',
      ''regproc'', ''regrole'', ''tid'', ''text'', ''character varying'', ''character'',
      ''time'', ''timetz'', ''tsquery'', ''tsvector'', ''txid_snapshot'', ''uuid'', ''varbit'',
      ''varchar'', ''xid'', ''xml'']"

definition dateNames :: "string list" where
  "dateNames =
     [''date'', ''timestamp'', ''timestamp without time zone'', ''timestamptz'',
      ''timestamp with time zone'']"

definition commonBaseType :: "string \<Rightarrow> TypeNode" where
  "commonBaseType typeName =
     (if typeName \<in> set commonStringNames then KeywordTypeNode StringKeyword
      else if typeName \<in> set commonNumberNames then KeywordTypeNode NumberKeyword
      else if typeName \<in> set [''bool'', ''boolean''] then KeywordTypeNode BooleanKeyword
      else if typeName = ''bytea'' then TypeReferenceNode ''Buffer'' []
      else if typeName \<in> set dateNames then TypeReferenceNode ''Date'' []
      else if typeName \<in> set [''json'', ''jsonb''] then KeywordTypeNode AnyKeyword
      else KeywordTypeNode AnyKeyword)"

definition commonColumnType :: "Column option \<Rightarrow> TypeNode" where
  "commonColumnType column =
     (case column of
        None \<Rightarrow> KeywordTypeNode AnyKeyword
      | Some c \<Rightarrow>
          (case col_type c of
             None \<Rightarrow> KeywordTypeNode AnyKeyword
           | Some name \<Rightarrow>
               wrapNull c (wrapArray c (commonBaseType (toLowerCase (stripPgCatalog name))))))"

subsection \<open>drivers/bun-sqlite.ts: Driver.columnType\<close>

definition sqliteNumberNames :: "string list" where
  "sqliteNumberNames =
     [''int'', ''integer'', ''tinyint'', ''smallint'', ''mediumint'', ''bigint'',
      ''unsignedbigint'', ''int2'', ''int8'', ''real'', ''double'', ''doubleprecision'',
      ''float'', ''boolean'', ''bool'', ''timestamp'']"

definition sqliteBaseType :: "string \<Rightarrow> TypeNode" where
  "sqliteBaseType typeName =
     (if typeName \<in> set sqliteNumberNames then KeywordTypeNode NumberKeyword
      else if typeName \<in> set [''varchar'', ''text'', ''date'', ''datetime'']
        then KeywordTypeNode StringKeyword
      else if typeName = ''blob'' then TypeReferenceNode ''Buffer'' []
      else KeywordTypeNode AnyKeyword)"

definition sqliteColumnType :: "Column option \<Rightarrow> TypeNode" where
  "sqliteColumnType column =
     (case column of
        None \<Rightarrow> KeywordTypeNode AnyKeyword
      | Some c \<Rightarrow>
          (case col_type c of
             None \<Rightarrow> KeywordTypeNode AnyKeyword
           | Some name \<Rightarrow> wrapNull c (sqliteBaseType (toLowerCase name))))"

subsection \<open>drivers/postgres.ts (tagged templates): columnType, getEnumName, pascalCase\<close>

text \<open>\<open>str.split("_")\<close>: one more part than there are separators.\<close>

fun splitOn :: "char \<Rightarrow> string \<Rightarrow> string list" where
  "splitOn d [] = [[]]"
| "splitOn d (c # cs) =
     (if c = d then [] # splitOn d cs else (c # hd (splitOn d cs)) # tl (splitOn d cs))"

text \<open>
  \<open>str.split("_").map((part) => part.charAt(0).toUpperCase() + part.slice(1).toLowerCase())
  .join("")\<close>. \<open>toUpperCase\<close> is the runtime's \<open>String.prototype.toUpperCase\<close>, an argument
  here; \<open>charAt(0)\<close> of the empty part is the empty string.
\<close>

definition pascalCase :: "(string \<Rightarrow> string) \<Rightarrow> string \<Rightarrow> string" where
  "pascalCase toUpperCase str =
     concat (map (\<lambda>part. toUpperCase (take 1 part) @ toLowerCase (drop 1 part))
               (splitOn (CHR ''_'') str))"

text \<open>
  The module keeps the enum map in a variable that \<open>setEnumMap\<close> assigns before any code is
  generated; here the map is an argument of the functions that read it.
\<close>

definition getEnumName :: "(string, Enum) jsmap \<Rightarrow> Column option \<Rightarrow> string option" where
  "getEnumName enumMap column =
     (case column of
        None \<Rightarrow> None
      | Some c \<Rightarrow>
          (case col_type c of
             None \<Rightarrow> None
           | Some name \<Rightarrow>
               (let typeName = toLowerCase name in
                if map_has enumMap typeName then Some typeName else None)))"

definition booleanNames :: "string list" where
  "booleanNames = [''bool'', ''boolean'']"

definition numberNames :: "string list" where
  "numberNames =
     [''float4'', ''real'', ''float8'', ''float'', ''double precision'', ''int2'', ''smallint'',
      ''int4'', ''int'', ''integer'', ''int8'', ''bigint'', ''bigserial'', ''serial'',
      ''serial2'', ''serial4'', ''serial8'', ''smallserial'', ''oid'']"

definition jsonNames :: "string list" where
  "jsonNames = [''json'', ''jsonb'']"

definition stringNames :: "string list" where
  "stringNames =
     [''text'', ''varchar'', ''character varying'', ''char'', ''character'', ''bpchar'',
      ''name'', ''uuid'', ''citext'', ''inet'', ''cidr'', ''macaddr'', ''macaddr8'', ''money'',
      ''numeric'', ''decimal'', ''xml'', ''bit'', ''varbit'', ''bit varying'', ''interval'',
      ''time'', ''time without time zone'', ''timetz'', ''time with time zone'', ''tsvector'',
      ''tsquery'']"

definition geometricNames :: "string list" where
  "geometricNames = [''point'', ''line'', ''lseg'', ''box'', ''path'', ''polygon'', ''circle'']"

definition geometricMessage :: "string \<Rightarrow> string" where
  "geometricMessage originalTypeName =
     ''Unrecognized PostgreSQL type: '' @ dquote @ originalTypeName @ dquote @ ''. ''
     @ ''Please add support for this type in sqlc-gen-typescript/src/drivers/postgres.ts''"

text \<open>\<open>column.name || "unknown"\<close>: the empty name is falsy.\<close>

definition nameOrUnknown :: "Column \<Rightarrow> string" where
  "nameOrUnknown c = (if col_name c = [] then ''unknown'' else col_name c)"

definition unrecognizedMessage :: "string \<Rightarrow> Column \<Rightarrow> string" where
  "unrecognizedMessage originalTypeName c =
     ''Unrecognized PostgreSQL type: '' @ dquote @ originalTypeName @ dquote
     @ '' for column '' @ dquote @ nameOrUnknown c @ dquote @ ''. ''
     @ ''This usually means sqlc couldn''
     @ quote @ ''t infer the type. ''
     @ ''Try adding an explicit cast like '' @ dquote @ ''sqlc.arg('' @ col_name c @ '')::text''
     @ dquote @ '' or '' @ dquote @ ''sqlc.narg('' @ quote @ col_name c @ quote @ '')'' @ dquote
     @ '' in your query. ''
     @ ''If this is a valid PostgreSQL type that needs support, please add it to sqlc-gen-typescript/src/drivers/postgres.ts''"

text \<open>
  The types the \<open>switch\<close> of the tagged-template driver assigns, by lower-cased type name;
  \<open>None\<close> for the names that reach one of its two \<open>throw\<close> statements.
\<close>

definition classify :: "string \<Rightarrow> TypeNode option" where
  "classify lowerTypeName =
     (if lowerTypeName \<in> set booleanNames then Some (KeywordTypeNode BooleanKeyword)
      else if lowerTypeName = ''bytea'' then Some (TypeReferenceNode ''Buffer'' [])
      else if lowerTypeName \<in> set dateNames then Some (TypeReferenceNode ''Date'' [])
      else if lowerTypeName \<in> set numberNames then Some (KeywordTypeNode NumberKeyword)
      else if lowerTypeName \<in> set jsonNames then Some (KeywordTypeNode AnyKeyword)
      else if lowerTypeName = ''void'' then Some (KeywordTypeNode VoidKeyword)
      else if lowerTypeName \<in> set stringNames then Some (KeywordTypeNode StringKeyword)
      else None)"

definition columnType ::
  "(string \<Rightarrow> string) \<Rightarrow> (string, Enum) jsmap \<Rightarrow> Column option \<Rightarrow> error + TypeNode" where
  "columnType toUpperCase enumMap column =
     (case column of
        None \<Rightarrow> Inr (KeywordTypeNode AnyKeyword)
      | Some c \<Rightarrow>
          (case col_type c of
             None \<Rightarrow> Inr (KeywordTypeNode AnyKeyword)
           | Some originalTypeName \<Rightarrow>
               (let lowerTypeName = toLowerCase (stripPgCatalog originalTypeName) in
                if map_has enumMap lowerTypeName then
                  (let typ = TypeReferenceNode (pascalCase toUpperCase lowerTypeName) [] in
                   if isArray c \<or> arrayDims c > 0 then
                     (let arrayType = (ArrayTypeNode ^^ nat (arrayDimsOf c)) typ in
                      if notNull c then Inr arrayType
                      else Inr (UnionTypeNode [arrayType, LiteralTypeNode NullLiteral]))
                   else if notNull c then Inr typ
                   else Inr (UnionTypeNode [typ, LiteralTypeNode NullLiteral]))
                else
                  (case classify lowerTypeName of
                     Some typ \<Rightarrow> Inr (wrapNull c (wrapArray c typ))
                   | None \<Rightarrow>
                       if lowerTypeName \<in> set geometricNames
                       then Inl (Error (geometricMessage originalTypeName))
                       else Inl (Error (unrecognizedMessage originalTypeName c))))))"

text \<open>
  The drivers as values of one interface (\<open>ColumnTyper\<close> in \<open>decls.ts\<close>): the shared
  PostgreSQL driver and the SQLite driver have no \<open>throw\<close> in \<open>columnType\<close>, the
  tagged-template driver has two.
\<close>

datatype Driver = PostgresCommonDriver | BunSqliteDriver | PostgresTemplateDriver

definition permissive :: "Driver \<Rightarrow> bool" where
  "permissive d = (d \<noteq> PostgresTemplateDriver)"

definition driverColumnType ::
  "Driver \<Rightarrow> (string \<Rightarrow> string) \<Rightarrow> (string, Enum) jsmap \<Rightarrow> Column option
   \<Rightarrow> error + TypeNode" where
  "driverColumnType d toUpperCase enumMap column =
     (case d of
        PostgresCommonDriver \<Rightarrow> Inr (commonColumnType column)
      | BunSqliteDriver \<Rightarrow> Inr (sqliteColumnType column)
      | PostgresTemplateDriver \<Rightarrow> columnType toUpperCase enumMap column)"

text \<open>Reading a mapped type: its null alternative, the type under it, its array levels.\<close>

definition includesNull :: "TypeNode \<Rightarrow> bool" where
  "includesNull t =
     (case t of UnionTypeNode ts \<Rightarrow> LiteralTypeNode NullLiteral \<in> set ts | _ \<Rightarrow> False)"

fun withoutNull :: "TypeNode \<Rightarrow> TypeNode" where
  "withoutNull (UnionTypeNode [t, LiteralTypeNode NullLiteral]) = t"
| "withoutNull t = t"

fun arrayLevels :: "TypeNode \<Rightarrow> nat" where
  "arrayLevels (ArrayTypeNode t) = Suc (arrayLevels t)"
| "arrayLevels t = 0"

text \<open>A base type is a keyword or a reference: no union, no array, not the null literal.\<close>

definition plainType :: "TypeNode \<Rightarrow> bool" where
  "plainType t = (\<not> includesNull t \<and> t \<noteq> LiteralTypeNode NullLiteral \<and> arrayLevels t = 0)"

section \<open>app.ts: buildEnumMap\<close>

definition isSystemSchema :: "Schema \<Rightarrow> bool" where
  "isSystemSchema schema =
     (schema_name schema = ''pg_catalog'' \<or> schema_name schema = ''information_schema'')"

text \<open>\<open>input.catalog?.defaultSchema ?? "public"\<close> and \<open>input.catalog?.schemas ?? []\<close>.\<close>

definition defaultSchemaOf :: "GenerateRequest \<Rightarrow> string" where
  "defaultSchemaOf input = (case catalog input of None \<Rightarrow> ''public'' | Some c \<Rightarrow> defaultSchema c)"

definition schemasOf :: "GenerateRequest \<Rightarrow> Schema list" where
  "schemasOf input = (case catalog input of None \<Rightarrow> [] | Some c \<Rightarrow> schemas c)"

text \<open>The body of the inner loop, for one enum of one schema.\<close>

definition qualifiedName :: "Schema \<Rightarrow> Enum \<Rightarrow> string" where
  "qualifiedName schema enumDef = schema_name schema @ ''.'' @ enum_name enumDef"

definition registerEnum ::
  "string \<Rightarrow> Schema \<Rightarrow> Enum \<Rightarrow> (string, Enum) jsmap \<Rightarrow> (string, Enum) jsmap" where
  "registerEnum dflt schema enumDef enumMap =
     (let enumMap1 = map_set enumMap (enum_name enumDef) enumDef in
      if schema_name schema \<noteq> dflt
      then map_set enumMap1 (qualifiedName schema enumDef) enumDef
      else enumMap1)"

text \<open>The body of the outer loop: \<open>continue\<close> on a system schema.\<close>

definition registerSchema ::
  "string \<Rightarrow> Schema \<Rightarrow> (string, Enum) jsmap \<Rightarrow> (string, Enum) jsmap" where
  "registerSchema dflt schema enumMap =
     (if isSystemSchema schema then enumMap
      else fold (registerEnum dflt schema) (enums schema) enumMap)"

definition buildEnumMap :: "GenerateRequest \<Rightarrow> (string, Enum) jsmap" where
  "buildEnumMap input = fold (registerSchema (defaultSchemaOf input)) (schemasOf input) []"

text \<open>
  The trace of the builder: the calls \<open>enumMap.set(key, enumDef)\<close> it makes, in order. It is
  not part of the program; the properties of \<open>buildEnumMap\<close> are stated against it.
\<close>

definition enumRegistrations :: "string \<Rightarrow> Schema \<Rightarrow> Enum \<Rightarrow> (string \<times> Enum) list" where
  "enumRegistrations dflt schema enumDef =
     (enum_name enumDef, enumDef)
     # (if schema_name schema \<noteq> dflt then [(qualifiedName schema enumDef, enumDef)] else [])"

definition schemaRegistrations :: "string \<Rightarrow> Schema \<Rightarrow> (string \<times> Enum) list" where
  "schemaRegistrations dflt schema =
     (if isSystemSchema schema then []
      else concat (map (enumRegistrations dflt schema) (enums schema)))"

definition registrations :: "GenerateRequest \<Rightarrow> (string \<times> Enum) list" where
  "registrations input =
     concat (map (schemaRegistrations (defaultSchemaOf input)) (schemasOf input))"

text \<open>The registrations under one key, in order.\<close>

definition registeredUnder :: "GenerateRequest \<Rightarrow> string \<Rightarrow> Enum list" where
  "registeredUnder input key = map snd (filter (\<lambda>r. fst r = key) (registrations input))"

text \<open>Replaying a list of \<open>set\<close> calls on a map.\<close>

definition setAll :: "('k \<times> 'v) list \<Rightarrow> ('k, 'v) jsmap \<Rightarrow> ('k, 'v) jsmap" where
  "setAll rs m = fold (\<lambda>r m. map_set m (fst r) (snd r)) rs m"

section \<open>The TypeScript syntax trees the drivers build\<close>

text \<open>
  One constructor per \<open>factory.create...\<close> call of the drivers, with the arguments the
  drivers pass: an argument that is \<open>undefined\<close> at every call is left out, and so is the
  \<open>export\<close> modifier every interface and type alias gets. A numeric literal is built from
  the decimal text of an array index, so it holds the index. An object literal holds its
  property assignments, an interface its property signatures, as pairs of name and
  initialiser or type. A template expression holds its head and its spans, a span being
  an expression and the middle or tail literal after it.
\<close>

datatype BinaryOperator =
  EqualsEqualsEqualsToken | ExclamationEqualsEqualsToken | QuestionQuestionToken

datatype PrefixUnaryOperator = ExclamationToken

datatype TemplateLiteralLikeNode = TemplateMiddle string | TemplateTail string

datatype 'e TemplateLiteral =
    NoSubstitutionTemplateLiteral string
  | TemplateExpression string "('e \<times> TemplateLiteralLikeNode) list"

datatype Expression =
    Identifier string
  | NumericLiteral nat
  | NullExpr
  | ElementAccessExpression Expression Expression
  | PropertyAccessExpression Expression string
  | CallExpression Expression "Expression list"
  | BinaryExpression Expression BinaryOperator Expression
  | ConditionalExpression Expression Expression Expression
  | PrefixUnaryExpression PrefixUnaryOperator Expression
  | ObjectLiteralExpression "(string \<times> Expression) list"
  | ArrayLiteralExpression "Expression list"
  | AwaitExpression Expression
  | AsExpression Expression TypeNode
  | TaggedTemplateExpression Expression "TypeNode list" "Expression TemplateLiteral"

datatype NodeFlag = Const | AwaitContext | ContextFlags | TypeExcludesFlags

datatype Statement =
    VariableStatement string Expression "NodeFlag list"
  | IfStatement Expression "Statement list"
  | ReturnStatement Expression
  | ExpressionStatement Expression

datatype Modifier = ExportKeyword | AsyncKeyword

record FunctionDeclaration =
  fn_modifiers :: "Modifier list"
  fn_name :: string
  fn_parameters :: "(string \<times> TypeNode) list"
  fn_type :: TypeNode
  fn_body :: "Statement list"

text \<open>
  The declarations of a generated file. An import holds whether it is type-only, its
  specifiers (the imported name when it is renamed, and the local name) and the module.
\<close>

datatype Node =
    ImportDeclaration bool "(string option \<times> string) list" string
  | TypeAliasDeclaration string TypeNode
  | InterfaceDeclaration string "(string \<times> TypeNode) list"
  | FunctionNode FunctionDeclaration

subsection \<open>drivers/postgres-common.ts: isBigIntType, createRowAccessExpression\<close>

definition BIGINT_TYPES :: "string list" where
  "BIGINT_TYPES = [''int8'', ''bigint'', ''bigserial'', ''serial8'']"

text \<open>\<open>if (!column?.type?.name) return false\<close>: no column, no type, or the empty name.\<close>

definition isBigIntType :: "Column option \<Rightarrow> bool" where
  "isBigIntType column =
     (case column of
        None \<Rightarrow> False
      | Some c \<Rightarrow>
          (case col_type c of
             None \<Rightarrow> False
           | Some name \<Rightarrow>
               if name = [] then False
               else toLowerCase (stripPgCatalog name) \<in> set BIGINT_TYPES))"

definition createRowAccessExpression :: "Column \<Rightarrow> nat \<Rightarrow> Expression" where
  "createRowAccessExpression col index =
     (let rowAccess = ElementAccessExpression (Identifier ''row'') (NumericLiteral index) in
      if \<not> isBigIntType (Some col) then rowAccess
      else
        (let numberCall = CallExpression (Identifier ''Number'') [rowAccess] in
         if notNull col then numberCall
         else ConditionalExpression
                (BinaryExpression rowAccess EqualsEqualsEqualsToken NullExpr) NullExpr numberCall))"

text \<open>
  The reading of the type name in the claim about the row accessor: the \<open>pg_catalog.\<close>
  prefix is stripped whatever its case, and the rest is compared whatever its case. It is
  not part of the program.
\<close>

definition bigintNameIgnoringCase :: "string \<Rightarrow> bool" where
  "bigintNameIgnoringCase name = (stripPgCatalog (toLowerCase name) \<in> set BIGINT_TYPES)"

section \<open>drivers/postgres.ts (tagged templates): buildTaggedTemplate\<close>

text \<open>
  What the generator takes from outside the files at hand: \<open>argName\<close> and \<open>colName\<close> of
  \<open>drivers/utils\<close>, the TypeScript printer behind \<open>printNode\<close>, the text
  \<open>Number.prototype.toString\<close> gives for a marker index beyond \<open>2^53\<close>, where
  \<open>parseInt\<close> no longer returns the integer the digits denote (\<open>numberText\<close> takes the
  digits of the marker), and \<open>String.prototype.toUpperCase\<close> (\<open>upperCase\<close>).
\<close>

record Externals =
  argName :: "nat \<Rightarrow> Column option \<Rightarrow> string"
  colName :: "nat \<Rightarrow> Column \<Rightarrow> string"
  printerPrintNode :: "Node \<Rightarrow> string"
  numberText :: "string \<Rightarrow> string"
  upperCase :: "string \<Rightarrow> string"

definition isDigit :: "char \<Rightarrow> bool" where
  "isDigit c = (c \<in> set ''0123456789'')"

text \<open>
  \<open>queryText.matchAll(/\$(\d+)/g)\<close>: the matches from left to right, each with its index
  in the text and its group of digits. At a \<open>$\<close> followed by a digit the match takes every
  digit that follows, and the scan goes on after the match; anywhere else it goes on at
  the next unit. \<open>matchFrom i s\<close> scans \<open>s\<close>, which stands at index \<open>i\<close> of the text.
\<close>

function matchFrom :: "nat \<Rightarrow> string \<Rightarrow> (nat \<times> string) list" where
  "matchFrom i [] = []"
| "matchFrom i (c # cs) =
     (if c = CHR ''$'' \<and> takeWhile isDigit cs \<noteq> []
      then (i, takeWhile isDigit cs)
             # matchFrom (i + 1 + length (takeWhile isDigit cs)) (dropWhile isDigit cs)
      else matchFrom (i + 1) cs)"
  by pat_completeness auto
termination
  by (relation "measure (\<lambda>(i, s). length s)") (auto simp: length_dropWhile_le less_Suc_eq_le)

definition matchAll :: "string \<Rightarrow> (nat \<times> string) list" where
  "matchAll queryText = matchFrom 0 queryText"

text \<open>\<open>parseInt(digits, 10)\<close> on a string of decimal digits, as the integer they denote.\<close>

definition digitValue :: "char \<Rightarrow> nat" where
  "digitValue c = (case map_of (zip ''0123456789'' [0, 1, 2, 3, 4, 5, 6, 7, 8, 9]) c of Some d \<Rightarrow> d | None \<Rightarrow> 0)"

definition digitChar :: "nat \<Rightarrow> char" where
  "digitChar d = ''0123456789'' ! d"

definition parseInt :: "string \<Rightarrow> nat" where
  "parseInt ds = fold (\<lambda>c n. 10 * n + digitValue c) ds 0"

fun showNat :: "nat \<Rightarrow> string" where
  "showNat n =
     (if n < 10 then [digitChar n] else showNat (n div 10) @ [digitChar (n mod 10)])"

definition showInt :: "int \<Rightarrow> string" where
  "showInt k = (if k < 0 then ''-'' @ showNat (nat (- k)) else showNat (nat k))"

text \<open>\<open>s.slice(a, b)\<close> and \<open>s.slice(a)\<close> for indices within the text.\<close>

definition slice :: "string \<Rightarrow> nat \<Rightarrow> nat \<Rightarrow> string" where
  "slice s a b = take (b - a) (drop a s)"

definition sliceFrom :: "string \<Rightarrow> nat \<Rightarrow> string" where
  "sliceFrom s a = drop a s"

definition MAX_SAFE :: nat where
  "MAX_SAFE = 2 ^ 53"

text \<open>
  The expression the loop pushes for a match with the digits \<open>ds\<close>:
  \<open>paramIndex = parseInt(match[1], 10) - 1; param = params[paramIndex]\<close>, then
  \<open>args.<argName(paramIndex, param.column)>\<close> when \<open>param\<close> is defined and
  \<open>args.arg<paramIndex>\<close> when it is not. Up to \<open>2^53\<close> the index is the integer the
  digits denote minus one (so \<open>-1\<close> for \<open>$0\<close>); beyond, no array has such an index.
\<close>

definition paramIndexText :: "Externals \<Rightarrow> string \<Rightarrow> string" where
  "paramIndexText ext ds =
     (if parseInt ds \<le> MAX_SAFE then showInt (int (parseInt ds) - 1) else numberText ext ds)"

definition boundExpression :: "Externals \<Rightarrow> Parameter list \<Rightarrow> string \<Rightarrow> Expression" where
  "boundExpression ext ps ds =
     (let v = parseInt ds in
      if 1 \<le> v \<and> v \<le> MAX_SAFE \<and> v - 1 < length ps
      then PropertyAccessExpression (Identifier ''args'')
             (argName ext (v - 1) (par_column (ps ! (v - 1))))
      else PropertyAccessExpression (Identifier ''args'') (''arg'' @ paramIndexText ext ds))"

text \<open>
  The loop over the matches and the \<open>parts.push(queryText.slice(lastIndex))\<close> after it:
  the parts and the expressions in the order they are pushed.
\<close>

fun templateLoop ::
  "Externals \<Rightarrow> string \<Rightarrow> Parameter list \<Rightarrow> (nat \<times> string) list \<Rightarrow> nat
     \<Rightarrow> string list \<times> Expression list" where
  "templateLoop ext queryText ps [] lastIndex = ([sliceFrom queryText lastIndex], [])"
| "templateLoop ext queryText ps ((index, ds) # ms) lastIndex =
     (let (parts, expressions) = templateLoop ext queryText ps ms (index + (1 + length ds))
      in (slice queryText lastIndex index # parts, boundExpression ext ps ds # expressions))"

definition templateSpans ::
  "string list \<Rightarrow> Expression list \<Rightarrow> (Expression \<times> TemplateLiteralLikeNode) list" where
  "templateSpans parts expressions =
     map (\<lambda>(expr, i).
            (expr, if i = length expressions - 1 then TemplateTail (parts ! (i + 1))
                   else TemplateMiddle (parts ! (i + 1))))
         (zip expressions [0..<length expressions])"

definition buildTaggedTemplate :: "Externals \<Rightarrow> string \<Rightarrow> Parameter list \<Rightarrow> Expression" where
  "buildTaggedTemplate ext queryText ps =
     (let (parts, expressions) = templateLoop ext queryText ps (matchAll queryText) 0 in
      if length expressions = 0
      then TaggedTemplateExpression (Identifier ''sql'') []
             (NoSubstitutionTemplateLiteral queryText)
      else TaggedTemplateExpression (Identifier ''sql'') []
             (TemplateExpression (parts ! 0) (templateSpans parts expressions)))"




section \<open>drivers/postgres.ts (tagged templates): the function declarations\<close>

definition preamble :: "Node list" where
  "preamble = [ImportDeclaration True [(None, ''Sql'')] ''postgres'']"

text \<open>\<open>if (iface && params.length > 0)\<close>: an interface name that is \<open>undefined\<close> or empty is falsy.\<close>

definition funcParamsDecl :: "string option \<Rightarrow> Parameter list \<Rightarrow> (string \<times> TypeNode) list" where
  "funcParamsDecl iface ps =
     [(''sql'', TypeReferenceNode ''Sql'' [])]
     @ (case iface of
          None \<Rightarrow> []
        | Some i \<Rightarrow> if i \<noteq> [] \<and> length ps > 0 then [(''args'', TypeReferenceNode i [])] else [])"

text \<open>\<open>addTypeArgument\<close> is only ever given a tagged template.\<close>

definition addTypeArgument :: "Expression \<Rightarrow> string \<Rightarrow> bool \<Rightarrow> Expression" where
  "addTypeArgument taggedTemplate typeName isArr =
     (let typeArg = (if isArr then ArrayTypeNode (TypeReferenceNode typeName [])
                     else TypeReferenceNode typeName [])
      in case taggedTemplate of
           TaggedTemplateExpression tag targs template \<Rightarrow>
             TaggedTemplateExpression tag [typeArg] template
         | e \<Rightarrow> e)"

definition execDecl ::
  "Externals \<Rightarrow> string \<Rightarrow> string \<Rightarrow> string option \<Rightarrow> Parameter list \<Rightarrow> FunctionDeclaration" where
  "execDecl ext funcName queryText argIface ps =
     \<lparr>fn_modifiers = [ExportKeyword, AsyncKeyword],
      fn_name = funcName,
      fn_parameters = funcParamsDecl argIface ps,
      fn_type = TypeReferenceNode ''Promise'' [KeywordTypeNode VoidKeyword],
      fn_body = [ExpressionStatement (AwaitExpression (buildTaggedTemplate ext queryText ps))]\<rparr>"

definition manyDecl ::
  "Externals \<Rightarrow> string \<Rightarrow> string \<Rightarrow> string option \<Rightarrow> string \<Rightarrow> Parameter list \<Rightarrow> Column list
     \<Rightarrow> FunctionDeclaration" where
  "manyDecl ext funcName queryText argIface returnIface ps cols =
     \<lparr>fn_modifiers = [ExportKeyword, AsyncKeyword],
      fn_name = funcName,
      fn_parameters = funcParamsDecl argIface ps,
      fn_type = TypeReferenceNode ''Promise'' [ArrayTypeNode (TypeReferenceNode returnIface [])],
      fn_body =
        [ReturnStatement
           (AwaitExpression
              (addTypeArgument (buildTaggedTemplate ext queryText ps) returnIface True))]\<rparr>"

definition oneDecl ::
  "Externals \<Rightarrow> string \<Rightarrow> string \<Rightarrow> string option \<Rightarrow> string \<Rightarrow> Parameter list \<Rightarrow> Column list
     \<Rightarrow> FunctionDeclaration" where
  "oneDecl ext funcName queryText argIface returnIface ps cols =
     \<lparr>fn_modifiers = [ExportKeyword, AsyncKeyword],
      fn_name = funcName,
      fn_parameters = funcParamsDecl argIface ps,
      fn_type = TypeReferenceNode ''Promise''
        [UnionTypeNode [TypeReferenceNode returnIface [], LiteralTypeNode NullLiteral]],
      fn_body =
        [VariableStatement ''rows''
           (AwaitExpression
              (addTypeArgument (buildTaggedTemplate ext queryText ps) returnIface True))
           [Const],
         ReturnStatement
           (BinaryExpression
              (ElementAccessExpression (Identifier ''rows'') (NumericLiteral 0))
              QuestionQuestionToken NullExpr)]\<rparr>"

definition execlastidDecl ::
  "string \<Rightarrow> string \<Rightarrow> string option \<Rightarrow> Parameter list \<Rightarrow> error + FunctionDeclaration" where
  "execlastidDecl funcName queryText argIface ps =
     Inl (Error ''postgres driver does not support :execlastid'')"

section \<open>app.ts: codegen\<close>

record File =
  file_name :: string
  contents :: string

definition HEADER :: string where
  "HEADER = ''// Code generated by sqlc. DO NOT EDIT.'' @ newline @ newline"

text \<open>\<open>printNode\<close>; the file's contents are the bytes of this text.\<close>

definition printNode :: "Externals \<Rightarrow> Node list \<Rightarrow> string" where
  "printNode ext nodes =
     fold (\<lambda>node output. output @ printerPrintNode ext node @ newline @ newline) nodes HEADER"

definition enumTypeDecl :: "(string \<Rightarrow> string) \<Rightarrow> string \<Rightarrow> Enum \<Rightarrow> Node" where
  "enumTypeDecl toUpperCase name enumDef =
     TypeAliasDeclaration (pascalCase toUpperCase name)
       (UnionTypeNode (map (\<lambda>val. LiteralTypeNode (StringLiteral val)) (vals enumDef)))"

text \<open>\<open>filename.replace(".", "_")\<close>: a string pattern replaces its first occurrence only.\<close>

fun replaceFirstDot :: "string \<Rightarrow> string" where
  "replaceFirstDot [] = []"
| "replaceFirstDot (c # cs) = (if c = CHR ''.'' then CHR ''_'' # cs else c # replaceFirstDot cs)"

definition outputName :: "string \<Rightarrow> string" where
  "outputName fname = replaceFirstDot fname @ ''.ts''"

text \<open>
  The grouping loop: \<open>if (!querymap.has(query.filename)) querymap.set(query.filename, []);
  const qs = querymap.get(query.filename); qs?.push(query)\<close>.
\<close>

definition groupStep :: "Query \<Rightarrow> (string, Query list) jsmap \<Rightarrow> (string, Query list) jsmap" where
  "groupStep query querymap =
     (let querymap1 = (if \<not> map_has querymap (filename query)
                       then map_set querymap (filename query) [] else querymap)
      in case map_get querymap1 (filename query) of
           None \<Rightarrow> querymap1
         | Some qs \<Rightarrow> map_set querymap1 (filename query) (qs @ [query]))"

definition groupQueries :: "Query list \<Rightarrow> (string, Query list) jsmap" where
  "groupQueries qs = fold groupStep qs []"

text \<open>A loop whose body may throw: the first error ends it.\<close>

fun foldM :: "('a \<Rightarrow> 's \<Rightarrow> error + 's) \<Rightarrow> 'a list \<Rightarrow> 's \<Rightarrow> error + 's" where
  "foldM f [] s = Inr s"
| "foldM f (x # xs) s = (case f x s of Inl e \<Rightarrow> Inl e | Inr s' \<Rightarrow> foldM f xs s')"

text \<open>
  \<open>xs.map((x, i) => createPropertySignature(.., createIdentifier(nameOf(i, x)), ..,
  columnType(x)))\<close>: the elements in order, the first \<open>columnType\<close> that throws ends the map.
\<close>

fun propertySignatures ::
  "(nat \<Rightarrow> 'a \<Rightarrow> string) \<Rightarrow> ('a \<Rightarrow> error + TypeNode) \<Rightarrow> nat \<Rightarrow> 'a list
     \<Rightarrow> error + (string \<times> TypeNode) list" where
  "propertySignatures nameOf typeOf i [] = Inr []"
| "propertySignatures nameOf typeOf i (x # xs) =
     (case typeOf x of
        Inl e \<Rightarrow> Inl e
      | Inr t \<Rightarrow>
          (case propertySignatures nameOf typeOf (Suc i) xs of
             Inl e \<Rightarrow> Inl e
           | Inr sigs \<Rightarrow> Inr ((nameOf i x, t) # sigs)))"

text \<open>\<open>xs.map((x, i) => nameOf(i, x))\<close>.\<close>

definition indexedNames :: "(nat \<Rightarrow> 'a \<Rightarrow> string) \<Rightarrow> 'a list \<Rightarrow> string list" where
  "indexedNames nameOf xs = map (\<lambda>(i, x). nameOf i x) (enumerate 0 xs)"

text \<open>
  The enum-usage loops: \<open>const enumName = getEnumName(col); if (enumName) {
  fileEnums.add(enumName); usedEnums.add(enumName) }\<close>; the empty name is falsy.
\<close>

definition noteEnum ::
  "(string, Enum) jsmap \<Rightarrow> Column option \<Rightarrow> string list \<times> string list
     \<Rightarrow> string list \<times> string list" where
  "noteEnum enumMap col sets =
     (case getEnumName enumMap col of
        None \<Rightarrow> sets
      | Some enumName \<Rightarrow>
          if enumName \<noteq> [] then (set_add (fst sets) enumName, set_add (snd sets) enumName)
          else sets)"

text \<open>
  The \<open>catch\<close> around the two interface declarations:
  \<open>throw new Error(`Error in query "${query.name}" (${filename}): ${err.message}`)\<close>.
  Nothing but an \<open>Error\<close> is thrown inside the \<open>try\<close>.
\<close>

definition errorMessage :: "error \<Rightarrow> string" where
  "errorMessage err = (case err of Error m \<Rightarrow> m | TypeError \<Rightarrow> ''TypeError'')"

definition wrapError :: "Query \<Rightarrow> string \<Rightarrow> error \<Rightarrow> error" where
  "wrapError query fname err =
     Error (''Error in query '' @ dquote @ query_name query @ dquote @ '' ('' @ fname @ ''): ''
            @ errorMessage err)"

text \<open>
  The state of the loop over the queries of one file: the nodes pushed so far, the enums
  of the file, the enums of the run.
\<close>

type_synonym genState = "Node list \<times> string list \<times> string list"

text \<open>\<open>if (query.params.length > 0) { ... }\<close>; the result holds \<open>argIface\<close>.\<close>

definition argsStage ::
  "Externals \<Rightarrow> (string, Enum) jsmap \<Rightarrow> string \<Rightarrow> Query \<Rightarrow> genState
     \<Rightarrow> error + (string option \<times> genState)" where
  "argsStage ext enumMap fname query st =
     (if length (params query) > 0 then
        (let argIface = query_name query @ ''Args'' in
         case assertUniqueNames
                \<lparr>kind = KArgument, queryName = query_name query, fileName = fname,
                 names = indexedNames (\<lambda>i p. argName ext i (par_column p)) (params query)\<rparr> of
           Inl e \<Rightarrow> Inl e
         | Inr u \<Rightarrow>
             (let sets = fold (\<lambda>p. noteEnum enumMap (par_column p)) (params query) (snd st) in
              case propertySignatures (\<lambda>i p. argName ext i (par_column p))
                     (\<lambda>p. columnType (upperCase ext) enumMap (par_column p)) 0 (params query) of
                Inl err \<Rightarrow> Inl (wrapError query fname err)
              | Inr sigs \<Rightarrow>
                  Inr (Some argIface, (fst st @ [InterfaceDeclaration argIface sigs], sets))))
      else Inr (None, st))"

text \<open>\<open>if (query.columns.length > 0) { ... }\<close>; the result holds \<open>returnIface\<close>.\<close>

definition rowStage ::
  "Externals \<Rightarrow> (string, Enum) jsmap \<Rightarrow> string \<Rightarrow> Query \<Rightarrow> genState
     \<Rightarrow> error + (string option \<times> genState)" where
  "rowStage ext enumMap fname query st =
     (if length (columns query) > 0 then
        (let returnIface = query_name query @ ''Row'' in
         case assertUniqueNames
                \<lparr>kind = KColumn, queryName = query_name query, fileName = fname,
                 names = indexedNames (colName ext) (columns query)\<rparr> of
           Inl e \<Rightarrow> Inl e
         | Inr u \<Rightarrow>
             (let sets = fold (\<lambda>c. noteEnum enumMap (Some c)) (columns query) (snd st) in
              case propertySignatures (colName ext) (\<lambda>c. columnType (upperCase ext) enumMap (Some c)) 0
                     (columns query) of
                Inl err \<Rightarrow> Inl (wrapError query fname err)
              | Inr sigs \<Rightarrow>
                  Inr (Some returnIface,
                       (fst st @ [InterfaceDeclaration returnIface sigs], sets))))
      else Inr (None, st))"

text \<open>The \<open>switch (query.cmd)\<close>; it has no default case.\<close>

definition declStage ::
  "Externals \<Rightarrow> string \<Rightarrow> Query \<Rightarrow> string option \<Rightarrow> string option \<Rightarrow> genState
     \<Rightarrow> error + genState" where
  "declStage ext lowerName query argIface returnIface st =
     (let returnName = (case returnIface of None \<Rightarrow> ''void'' | Some r \<Rightarrow> r) in
      if cmd query = '':exec'' then
        Inr (fst st @ [FunctionNode (execDecl ext lowerName (sqlText query) argIface (params query))],
             snd st)
      else if cmd query = '':execlastid'' then
        (case execlastidDecl lowerName (sqlText query) argIface (params query) of
           Inl e \<Rightarrow> Inl e
         | Inr d \<Rightarrow> Inr (fst st @ [FunctionNode d], snd st))
      else if cmd query = '':one'' then
        Inr (fst st @ [FunctionNode (oneDecl ext lowerName (sqlText query) argIface returnName
                                       (params query) (columns query))],
             snd st)
      else if cmd query = '':many'' then
        Inr (fst st @ [FunctionNode (manyDecl ext lowerName (sqlText query) argIface returnName
                                       (params query) (columns query))],
             snd st)
      else Inr st)"

text \<open>
  The body of the loop over the queries of a file.
  \<open>query.name[0].toLowerCase() + query.name.slice(1)\<close> is a \<open>TypeError\<close> on the empty name,
  where \<open>query.name[0]\<close> is \<open>undefined\<close>.
\<close>

definition processQuery ::
  "Externals \<Rightarrow> (string, Enum) jsmap \<Rightarrow> string \<Rightarrow> Query \<Rightarrow> genState \<Rightarrow> error + genState" where
  "processQuery ext enumMap fname query st =
     (case query_name query of
        [] \<Rightarrow> Inl TypeError
      | c # cs \<Rightarrow>
          (let lowerName = lowerChar c # cs in
           case argsStage ext enumMap fname query st of
             Inl e \<Rightarrow> Inl e
           | Inr (argIface, st1) \<Rightarrow>
               (case rowStage ext enumMap fname query st1 of
                  Inl e \<Rightarrow> Inl e
                | Inr (returnIface, st2) \<Rightarrow>
                    declStage ext lowerName query argIface returnIface st2)))"

text \<open>
  The enum declarations of a file, in the order of \<open>fileEnums\<close>
  (\<open>const enumDef = enumMap.get(enumName); if (enumDef) enumNodes.push(...)\<close>), and
  \<open>nodes.splice(preambleLength, 0, ...enumNodes)\<close>.
\<close>

definition enumNodes ::
  "(string \<Rightarrow> string) \<Rightarrow> (string, Enum) jsmap \<Rightarrow> string list \<Rightarrow> Node list" where
  "enumNodes toUpperCase enumMap fileEnums =
     concat (map (\<lambda>enumName. case map_get enumMap enumName of
                                 None \<Rightarrow> []
                               | Some enumDef \<Rightarrow> [enumTypeDecl toUpperCase enumName enumDef]) fileEnums)"

definition spliceAfterPreamble :: "Node list \<Rightarrow> Node list \<Rightarrow> Node list" where
  "spliceAfterPreamble nodes new =
     take (length preamble) nodes @ new @ drop (length preamble) nodes"

text \<open>The body of the loop over the files: the state is the files pushed and \<open>usedEnums\<close>.\<close>

definition processFile ::
  "Externals \<Rightarrow> (string, Enum) jsmap \<Rightarrow> string \<times> Query list \<Rightarrow> File list \<times> string list
     \<Rightarrow> error + File list \<times> string list" where
  "processFile ext enumMap entry st =
     (case foldM (processQuery ext enumMap (fst entry)) (snd entry) (preamble, [], snd st) of
        Inl e \<Rightarrow> Inl e
      | Inr (nodes, fileEnums, usedEnums) \<Rightarrow>
          Inr (fst st @ [\<lparr>file_name = outputName (fst entry),
                          contents = printNode ext
                            (spliceAfterPreamble nodes (enumNodes (upperCase ext) enumMap fileEnums))\<rparr>],
               usedEnums))"

definition codegen :: "Externals \<Rightarrow> GenerateRequest \<Rightarrow> error + File list" where
  "codegen ext input =
     (case foldM (processFile ext (buildEnumMap input)) (groupQueries (queries input)) ([], []) of
        Inl e \<Rightarrow> Inl e
      | Inr (files, usedEnums) \<Rightarrow> Inr files)"

section \<open>The errors of a run\<close>

text \<open>
  Not part of the program: the error a query's emission raises (the state of the loop is
  of no account, so the empty one is taken), the queries in the order the run processes
  them, and the error of the first query that raises one.
\<close>

definition emissionError :: "Externals \<Rightarrow> (string, Enum) jsmap \<Rightarrow> Query \<Rightarrow> error option" where
  "emissionError ext enumMap query =
     (case processQuery ext enumMap (filename query) query ([], [], []) of
        Inl e \<Rightarrow> Some e
      | Inr st \<Rightarrow> None)"

definition processingOrder :: "GenerateRequest \<Rightarrow> Query list" where
  "processingOrder input = concat (map snd (groupQueries (queries input)))"

definition firstError :: "Externals \<Rightarrow> (string, Enum) jsmap \<Rightarrow> Query list \<Rightarrow> error option" where
  "firstError ext enumMap qs =
     (case find (\<lambda>q. emissionError ext enumMap q \<noteq> None) qs of
        None \<Rightarrow> None
      | Some q \<Rightarrow> emissionError ext enumMap q)"

text \<open>The invariant of the grouping loop: one entry per filename, each query under its own.\<close>

definition grouped :: "(string, Query list) jsmap \<Rightarrow> bool" where
  "grouped m = (distinct (map fst m) \<and> (\<forall>entry \<in> set m. \<forall>q \<in> set (snd entry). filename q = fst entry))"

text \<open>
  Not part of the program: the account the amended claim C9 gives of a run, written with
  no reference to the generator's loop. \<open>typeErrors\<close> are the messages of the errors
  \<open>columnType\<close> raises on a list of columns, in the order of the list. \<open>expectedError\<close>
  is the error of one query: the runtime's \<open>TypeError\<close> for an empty name; else the error
  of \<open>assertUniqueNames\<close> on the argument names, as it is; else the first type error of
  the parameters, with the query name and the filename before it; else the same two for
  the columns; else the driver's error for \<open>:execlastid\<close>, as it is. \<open>requestOrder\<close> is
  the order of processing: the files by the first query of each in the request, the
  queries of a file in the order of the request.
\<close>

fun typeErrors ::
  "(string \<Rightarrow> string) \<Rightarrow> (string, Enum) jsmap \<Rightarrow> Column option list \<Rightarrow> string list" where
  "typeErrors toUpperCase enumMap [] = []"
| "typeErrors toUpperCase enumMap (c # cs) =
     (case columnType toUpperCase enumMap c of
        Inl (Error msg) \<Rightarrow> msg # typeErrors toUpperCase enumMap cs
      | _ \<Rightarrow> typeErrors toUpperCase enumMap cs)"

definition expectedError :: "Externals \<Rightarrow> (string, Enum) jsmap \<Rightarrow> Query \<Rightarrow> error option" where
  "expectedError ext enumMap query =
     (if query_name query = [] then Some TypeError
      else
        case assertUniqueNames
               \<lparr>kind = KArgument, queryName = query_name query, fileName = filename query,
                names = map (\<lambda>(i, p). argName ext i (par_column p))
                          (enumerate 0 (params query))\<rparr> of
          Inl e \<Rightarrow> Some e
        | Inr u \<Rightarrow>
        (case typeErrors (upperCase ext) enumMap (map par_column (params query)) of
          msg # rest \<Rightarrow>
            Some (Error (''Error in query '' @ dquote @ query_name query @ dquote @ '' (''
                         @ filename query @ ''): '' @ msg))
        | [] \<Rightarrow>
        (case assertUniqueNames
               \<lparr>kind = KColumn, queryName = query_name query, fileName = filename query,
                names = map (\<lambda>(i, c). colName ext i c) (enumerate 0 (columns query))\<rparr> of
          Inl e \<Rightarrow> Some e
        | Inr u \<Rightarrow>
        (case typeErrors (upperCase ext) enumMap (map Some (columns query)) of
          msg # rest \<Rightarrow>
            Some (Error (''Error in query '' @ dquote @ query_name query @ dquote @ '' (''
                         @ filename query @ ''): '' @ msg))
        | [] \<Rightarrow>
            if cmd query = '':execlastid''
            then Some (Error ''postgres driver does not support :execlastid'')
            else None))))"

definition requestOrder :: "Query list \<Rightarrow> Query list" where
  "requestOrder qs =
     concat (map (\<lambda>f. filter (\<lambda>q. filename q = f) qs) (rev (remdups (rev (map filename qs)))))"

section \<open>The other drivers' oneDecl\<close>

text \<open>\<open>params.map((param, i) => args.<argName(i, param.column)>)\<close>.\<close>

definition argAccesses :: "Externals \<Rightarrow> Parameter list \<Rightarrow> Expression list" where
  "argAccesses ext ps =
     map (\<lambda>(i, p). PropertyAccessExpression (Identifier ''args'') (argName ext i (par_column p)))
       (enumerate 0 ps)"

text \<open>\<open>sql.unsafe(queryName, [args...])\<close>.\<close>

definition unsafeCall :: "Externals \<Rightarrow> string \<Rightarrow> Parameter list \<Rightarrow> Expression" where
  "unsafeCall ext queryName' ps =
     CallExpression (PropertyAccessExpression (Identifier ''sql'') ''unsafe'')
       [Identifier queryName', ArrayLiteralExpression (argAccesses ext ps)]"

text \<open>\<open>if (rows.length !== 1) return null\<close>.\<close>

definition lengthGuard :: Statement where
  "lengthGuard =
     IfStatement
       (BinaryExpression (PropertyAccessExpression (Identifier ''rows'') ''length'')
          ExclamationEqualsEqualsToken (NumericLiteral 1))
       [ReturnStatement NullExpr]"

definition commonFuncParamsDecl :: "string option \<Rightarrow> Parameter list \<Rightarrow> (string \<times> TypeNode) list" where
  "commonFuncParamsDecl iface ps =
     [(''sql'', TypeReferenceNode ''SQL'' [])]
     @ (case iface of
          None \<Rightarrow> []
        | Some i \<Rightarrow> if i \<noteq> [] \<and> length ps > 0 then [(''args'', TypeReferenceNode i [])] else [])"

subsection \<open>drivers/postgres-common.ts: PostgresCommonDriver.oneDecl\<close>

definition commonOneDecl ::
  "Externals \<Rightarrow> string \<Rightarrow> string \<Rightarrow> string option \<Rightarrow> string \<Rightarrow> Parameter list \<Rightarrow> Column list
     \<Rightarrow> FunctionDeclaration" where
  "commonOneDecl ext funcName queryName' argIface returnIface ps cols =
     \<lparr>fn_modifiers = [ExportKeyword, AsyncKeyword],
      fn_name = funcName,
      fn_parameters = commonFuncParamsDecl argIface ps,
      fn_type = TypeReferenceNode ''Promise''
        [UnionTypeNode [TypeReferenceNode returnIface [], LiteralTypeNode NullLiteral]],
      fn_body =
        [VariableStatement ''rows''
           (AsExpression
              (AwaitExpression
                 (CallExpression
                    (PropertyAccessExpression (unsafeCall ext queryName' ps) ''values'') []))
              (ArrayTypeNode (KeywordTypeNode AnyKeyword)))
           [Const, AwaitContext, ContextFlags, TypeExcludesFlags],
         lengthGuard,
         VariableStatement ''row''
           (ElementAccessExpression (Identifier ''rows'') (NumericLiteral 0)) [Const],
         IfStatement (PrefixUnaryExpression ExclamationToken (Identifier ''row''))
           [ReturnStatement NullExpr],
         ReturnStatement
           (ObjectLiteralExpression
              (map (\<lambda>(i, col). (colName ext i col, createRowAccessExpression col i))
                 (enumerate 0 cols)))]\<rparr>"

subsection \<open>drivers/postgres.ts (sql.unsafe, rows cast to the row type): Driver.oneDecl\<close>

definition unsafeOneDecl ::
  "Externals \<Rightarrow> string \<Rightarrow> string \<Rightarrow> string option \<Rightarrow> string \<Rightarrow> Parameter list \<Rightarrow> Column list
     \<Rightarrow> FunctionDeclaration" where
  "unsafeOneDecl ext funcName queryName' argIface returnIface ps cols =
     \<lparr>fn_modifiers = [ExportKeyword, AsyncKeyword],
      fn_name = funcName,
      fn_parameters = commonFuncParamsDecl argIface ps,
      fn_type = TypeReferenceNode ''Promise''
        [UnionTypeNode [TypeReferenceNode returnIface [], LiteralTypeNode NullLiteral]],
      fn_body =
        [VariableStatement ''rows''
           (AsExpression (AwaitExpression (unsafeCall ext queryName' ps))
              (ArrayTypeNode (TypeReferenceNode returnIface [])))
           [Const],
         lengthGuard,
         ReturnStatement
           (BinaryExpression
              (ElementAccessExpression (Identifier ''rows'') (NumericLiteral 0))
              QuestionQuestionToken NullExpr)]\<rparr>"

subsection \<open>drivers/bun-sqlite.ts: Driver.oneDecl\<close>

definition sqliteFuncParamsDecl :: "string option \<Rightarrow> Parameter list \<Rightarrow> (string \<times> TypeNode) list" where
  "sqliteFuncParamsDecl iface ps =
     [(''database'', TypeReferenceNode ''Database'' [])]
     @ (case iface of
          None \<Rightarrow> []
        | Some i \<Rightarrow> if i \<noteq> [] \<and> length ps > 0 then [(''args'', TypeReferenceNode i [])] else [])"

definition sqliteOneDecl ::
  "Externals \<Rightarrow> string \<Rightarrow> string \<Rightarrow> string option \<Rightarrow> string \<Rightarrow> Parameter list \<Rightarrow> Column list
     \<Rightarrow> FunctionDeclaration" where
  "sqliteOneDecl ext funcName queryName' argIface returnIface ps cols =
     \<lparr>fn_modifiers = [ExportKeyword, AsyncKeyword],
      fn_name = funcName,
      fn_parameters = sqliteFuncParamsDecl argIface ps,
      fn_type = TypeReferenceNode ''Promise''
        [UnionTypeNode [TypeReferenceNode returnIface [], LiteralTypeNode NullLiteral]],
      fn_body =
        [VariableStatement ''stmt''
           (CallExpression (PropertyAccessExpression (Identifier ''database'') ''prepare'')
              [Identifier queryName'])
           [Const, TypeExcludesFlags],
         VariableStatement ''rows''
           (CallExpression (PropertyAccessExpression (Identifier ''stmt'') ''values'')
              (argAccesses ext ps))
           [Const, ContextFlags, TypeExcludesFlags],
         lengthGuard,
         VariableStatement ''row''
           (ElementAccessExpression (Identifier ''rows'') (NumericLiteral 0)) [Const],
         IfStatement (PrefixUnaryExpression ExclamationToken (Identifier ''row''))
           [ReturnStatement NullExpr],
         ReturnStatement
           (ObjectLiteralExpression
              (map (\<lambda>(i, col).
                      (colName ext i col,
                       AsExpression
                         (ElementAccessExpression (Identifier ''row'') (NumericLiteral i))
                         (sqliteColumnType (Some col))))
                 (enumerate 0 cols)))]\<rparr>"

section \<open>Running the emitted statements\<close>

text \<open>
  The meaning of the statements and expressions the \<open>oneDecl\<close> functions emit, as the
  JavaScript they print to runs. The database is outside: a call \<open>sql.unsafe(...)\<close> or a
  tagged template \<open>sql`...`\<close> is a pending query, \<open>.values()\<close> on it is a pending query,
  and \<open>await\<close> on a pending query gives the rows of the result set; \<open>database.prepare(...)\<close>
  is a statement and \<open>.values(...)\<close> on it gives the rows at once. The arguments of these
  calls are not evaluated here. \<open>Number\<close> is the conversion of the runtime.
\<close>

datatype jsval =
    JUndefined | JNull | JBool bool | JNum int | JStr string
  | JArr "jsval list" | JObj "(string \<times> jsval) list"
  | JQuery | JStatement

record Runtime =
  resultRows :: "jsval list"
  numberOf :: "jsval \<Rightarrow> jsval"

definition truthy :: "jsval \<Rightarrow> bool" where
  "truthy v =
     (case v of
        JUndefined \<Rightarrow> False
      | JNull \<Rightarrow> False
      | JBool b \<Rightarrow> b
      | JNum n \<Rightarrow> n \<noteq> 0
      | JStr s \<Rightarrow> s \<noteq> []
      | _ \<Rightarrow> True)"

text \<open>
  \<open>===\<close> on primitive values; an object is equal to nothing but itself, and the emitted code
  compares no two objects.
\<close>

definition isPrimitive :: "jsval \<Rightarrow> bool" where
  "isPrimitive v =
     (case v of JArr xs \<Rightarrow> False | JObj fs \<Rightarrow> False | JQuery \<Rightarrow> False | JStatement \<Rightarrow> False
      | _ \<Rightarrow> True)"

definition strictEquals :: "jsval \<Rightarrow> jsval \<Rightarrow> bool" where
  "strictEquals x y = (isPrimitive x \<and> x = y)"

definition binary :: "BinaryOperator \<Rightarrow> jsval \<Rightarrow> jsval \<Rightarrow> jsval" where
  "binary operator x y =
     (case operator of
        EqualsEqualsEqualsToken \<Rightarrow> JBool (strictEquals x y)
      | ExclamationEqualsEqualsToken \<Rightarrow> JBool (\<not> strictEquals x y)
      | QuestionQuestionToken \<Rightarrow> if x = JNull \<or> x = JUndefined then y else x)"

text \<open>\<open>a[i]\<close> on an array: the element, \<open>undefined\<close> out of range.\<close>

definition elementAt :: "jsval list \<Rightarrow> int \<Rightarrow> jsval" where
  "elementAt xs n = (if 0 \<le> n \<and> nat n < length xs then xs ! nat n else JUndefined)"

text \<open>
  \<open>a[i]\<close> with a number \<open>i\<close> on any value: it throws on \<open>null\<close> and \<open>undefined\<close>; on an
  object it is the property whose name is the decimal text of \<open>i\<close>, \<open>undefined\<close> when
  there is none; on a string it is the unit at \<open>i\<close>; a boolean, a number, a pending query
  and a statement have no such property.
\<close>

definition elementOf :: "jsval \<Rightarrow> int \<Rightarrow> jsval option" where
  "elementOf v n =
     (case v of
        JUndefined \<Rightarrow> None
      | JNull \<Rightarrow> None
      | JArr xs \<Rightarrow> Some (elementAt xs n)
      | JObj fs \<Rightarrow> Some (case map_of fs (showInt n) of Some w \<Rightarrow> w | None \<Rightarrow> JUndefined)
      | JStr s \<Rightarrow> Some (if 0 \<le> n \<and> nat n < length s then JStr [s ! nat n] else JUndefined)
      | _ \<Rightarrow> Some JUndefined)"

text \<open>
  An expression evaluates to a value, or to \<open>None\<close> when it throws (a property of \<open>null\<close> or
  \<open>undefined\<close>, an unbound name) or when its value is none of \<^typ>\<open>jsval\<close>: a method, a
  property of a pending query or a statement, an index that is no number, a call or an
  array literal that the emitted \<open>:one\<close> logic does not evaluate.
\<close>

fun eval :: "Runtime \<Rightarrow> (string \<times> jsval) list \<Rightarrow> Expression \<Rightarrow> jsval option"
  and evalProperties ::
    "Runtime \<Rightarrow> (string \<times> jsval) list \<Rightarrow> (string \<times> Expression) list
       \<Rightarrow> (string \<times> jsval) list option" where
  "eval rt env (Identifier x) = map_of env x"
| "eval rt env (NumericLiteral n) = Some (JNum (int n))"
| "eval rt env NullExpr = Some JNull"
| "eval rt env (ElementAccessExpression a i) =
     (case eval rt env a of
        None \<Rightarrow> None
      | Some v \<Rightarrow> (case eval rt env i of Some (JNum n) \<Rightarrow> elementOf v n | _ \<Rightarrow> None))"
| "eval rt env (PropertyAccessExpression a p) =
     (case eval rt env a of
        Some (JArr xs) \<Rightarrow> if p = ''length'' then Some (JNum (int (length xs))) else None
      | Some (JObj fs) \<Rightarrow> Some (case map_of fs p of Some v \<Rightarrow> v | None \<Rightarrow> JUndefined)
      | _ \<Rightarrow> None)"
| "eval rt env (CallExpression (Identifier f) args) =
     (if f = ''Number''
      then (case args of [a] \<Rightarrow> map_option (numberOf rt) (eval rt env a) | _ \<Rightarrow> None)
      else None)"
| "eval rt env (CallExpression (PropertyAccessExpression receiver m) args) =
     (if m = ''unsafe'' then Some JQuery
      else if m = ''prepare'' then Some JStatement
      else if m = ''values'' then
        (case eval rt env receiver of
           Some JQuery \<Rightarrow> Some JQuery
         | Some JStatement \<Rightarrow> Some (JArr (resultRows rt))
         | _ \<Rightarrow> None)
      else None)"
| "eval rt env (CallExpression f args) = None"
| "eval rt env (BinaryExpression a operator b) =
     (case eval rt env a of
        None \<Rightarrow> None
      | Some x \<Rightarrow> (case eval rt env b of None \<Rightarrow> None | Some y \<Rightarrow> Some (binary operator x y)))"
| "eval rt env (ConditionalExpression c t e) =
     (case eval rt env c of
        None \<Rightarrow> None
      | Some v \<Rightarrow> if truthy v then eval rt env t else eval rt env e)"
| "eval rt env (PrefixUnaryExpression ExclamationToken a) =
     map_option (\<lambda>v. JBool (\<not> truthy v)) (eval rt env a)"
| "eval rt env (ObjectLiteralExpression props) = map_option JObj (evalProperties rt env props)"
| "eval rt env (ArrayLiteralExpression es) = None"
| "eval rt env (AwaitExpression a) =
     (case eval rt env a of Some JQuery \<Rightarrow> Some (JArr (resultRows rt)) | r \<Rightarrow> r)"
| "eval rt env (AsExpression a t) = eval rt env a"
| "eval rt env (TaggedTemplateExpression tag targs template) = Some JQuery"
| "evalProperties rt env [] = Some []"
| "evalProperties rt env (p # ps) =
     (case eval rt env (snd p) of
        None \<Rightarrow> None
      | Some v \<Rightarrow> map_option (\<lambda>vs. (fst p, v) # vs) (evalProperties rt env ps))"

text \<open>
  A statement list returns a value, throws, or completes (the function then returns
  \<open>undefined\<close>). A \<open>const\<close> binds its name for the statements after it.
\<close>

datatype outcome = Returned jsval | Thrown | Completed

fun exec :: "Runtime \<Rightarrow> (string \<times> jsval) list \<Rightarrow> Statement list \<Rightarrow> outcome" where
  "exec rt env [] = Completed"
| "exec rt env (VariableStatement x e flags # rest) =
     (case eval rt env e of None \<Rightarrow> Thrown | Some v \<Rightarrow> exec rt ((x, v) # env) rest)"
| "exec rt env (IfStatement c body # rest) =
     (case eval rt env c of
        None \<Rightarrow> Thrown
      | Some v \<Rightarrow>
          if truthy v
          then (case exec rt env body of Completed \<Rightarrow> exec rt env rest | r \<Rightarrow> r)
          else exec rt env rest)"
| "exec rt env (ReturnStatement e # rest) =
     (case eval rt env e of None \<Rightarrow> Thrown | Some v \<Rightarrow> Returned v)"
| "exec rt env (ExpressionStatement e # rest) =
     (case eval rt env e of None \<Rightarrow> Thrown | Some v \<Rightarrow> exec rt env rest)"

text \<open>A call of an emitted function: the parameters bound to the actual arguments.\<close>

definition call :: "Runtime \<Rightarrow> FunctionDeclaration \<Rightarrow> jsval list \<Rightarrow> outcome" where
  "call rt f actuals = exec rt (zip (map fst (fn_parameters f)) actuals) (fn_body f)"

section \<open>Sample inputs\<close>

text \<open>
  A concrete stand-in for what is taken from outside: names from the column, nothing
  printed, and for \<open>toUpperCase\<close> the table of \<open>toLowerCase\<close> read backwards, which is
  \<open>toUpperCase\<close> on every text without \<open>U+00DF\<close>, \<open>U+00B5\<close> and \<open>U+00FF\<close>.
\<close>

definition sampleUpperCase :: "string \<Rightarrow> string" where
  "sampleUpperCase s =
     map (\<lambda>c. case map_of (zip lowerCaseUnits upperCaseUnits) c of Some d \<Rightarrow> d | None \<Rightarrow> c) s"

definition sampleExt :: Externals where
  "sampleExt =
     \<lparr>argName = (\<lambda>i c. case c of None \<Rightarrow> ''arg'' @ showNat i | Some col \<Rightarrow> col_name col),
      colName = (\<lambda>i c. col_name c),
      printerPrintNode = (\<lambda>n. ''''),
      numberText = (\<lambda>ds. ds),
      upperCase = sampleUpperCase\<rparr>"

definition idColumn :: Column where
  "idColumn = \<lparr>col_name = ''id'', notNull = True, isArray = False, arrayDims = 0,
      col_type = Some ''int8''\<rparr>"

definition deleteAuthor :: Query where
  "deleteAuthor = \<lparr>sqlText = ''DELETE FROM authors RETURNING id'', query_name = ''DeleteAuthor'',
      cmd = '':exec'', columns = [idColumn], params = [], filename = ''query.sql''\<rparr>"

definition sampleRequest :: GenerateRequest where
  "sampleRequest = \<lparr>catalog = None, queries = [deleteAuthor]\<rparr>"

definition attrsColumn :: Column where
  "attrsColumn = \<lparr>col_name = ''attrs'', notNull = True, isArray = False, arrayDims = 0,
      col_type = Some ''hstore''\<rparr>"

definition listThings :: Query where
  "listThings = \<lparr>sqlText = ''SELECT attrs FROM things'', query_name = ''ListThings'',
      cmd = '':many'', columns = [attrsColumn], params = [], filename = ''query.sql''\<rparr>"

definition createAuthor :: Query where
  "createAuthor = \<lparr>sqlText = ''INSERT INTO authors (name) VALUES ($1)'',
      query_name = ''CreateAuthor'', cmd = '':execlastid'', columns = [], params = [],
      filename = ''query.sql''\<rparr>"

definition nameColumn :: Column where
  "nameColumn = \<lparr>col_name = ''name'', notNull = True, isArray = False, arrayDims = 0,
      col_type = Some ''text''\<rparr>"

text \<open>A result set of two rows, as objects and as tuples.\<close>

definition twoRows :: Runtime where
  "twoRows = \<lparr>resultRows = [JObj [(''id'', JNum 1)], JObj [(''id'', JNum 2)]],
      numberOf = (\<lambda>v. v)\<rparr>"

definition twoTuples :: Runtime where
  "twoTuples = \<lparr>resultRows = [JArr [JNum 1], JArr [JNum 2]], numberOf = (\<lambda>v. v)\<rparr>"

section \<open>Properties of the uniqueness validator\<close>

lemma map_set_keys:
  "map fst (map_set m k v) = (if k \<in> fst ` set m then map fst m else map fst m @ [k])"
  by (induction m k v rule: map_set.induct) auto

lemma map_set_distinct: "distinct (map fst m) \<Longrightarrow> distinct (map fst (map_set m k v))"
  by (simp add: map_set_keys)

lemma map_of_map_set: "map_of (map_set m k v) = (map_of m)(k \<mapsto> v)"
  by (induction m k v rule: map_set.induct) (auto simp: fun_eq_iff)

lemma countStep_distinct: "distinct (map fst m) \<Longrightarrow> distinct (map fst (countStep n m))"
  by (simp add: countStep_def map_set_distinct)

lemma fold_countStep_distinct:
  "distinct (map fst m) \<Longrightarrow> distinct (map fst (fold countStep ns m))"
  by (induction ns arbitrary: m) (simp_all add: countStep_distinct)

lemma map_of_countStep:
  "map_of (countStep a m) =
     (map_of m)(a \<mapsto> (case map_of m a of None \<Rightarrow> 1 | Some c \<Rightarrow> Suc c))"
  by (simp add: countStep_def map_of_map_set map_get_def split: option.split)

lemma fold_countStep_lookup:
  "map_of (fold countStep ns m) n =
     (case map_of m n of
        None \<Rightarrow> if n \<in> set ns then Some (count_list ns n) else None
      | Some c \<Rightarrow> Some (c + count_list ns n))"
proof (induction ns arbitrary: m)
  case Nil
  show ?case by (simp split: option.split)
next
  case (Cons a ns)
  show ?case
    by (simp add: Cons.IH map_of_countStep count_list_0_iff split: option.split)
qed

lemma countNames_lookup:
  "map_of (countNames ns) n = (if n \<in> set ns then Some (count_list ns n) else None)"
  by (simp add: countNames_def fold_countStep_lookup)

lemma countNames_distinct: "distinct (map fst (countNames ns))"
  by (simp add: countNames_def fold_countStep_distinct)

lemma countNames_entry:
  "(n, c) \<in> set (countNames ns) \<longleftrightarrow> n \<in> set ns \<and> c = count_list ns n"
proof -
  have "(n, c) \<in> set (countNames ns) \<longleftrightarrow> map_of (countNames ns) n = Some c"
    using countNames_distinct [of ns] by (simp add: map_of_eq_Some_iff)
  then show ?thesis by (auto simp: countNames_lookup)
qed

lemma set_duplicatesOf: "set (duplicatesOf ns) = {n \<in> set ns. 1 < count_list ns n}"
  by (auto simp: duplicatesOf_def countNames_entry image_iff)

lemma distinct_duplicatesOf: "distinct (duplicatesOf ns)"
proof -
  have "distinct (map fst (filter P (countNames ns)))" for P
    using countNames_distinct [of ns] by (rule distinct_map_filter)
  then show ?thesis by (simp add: duplicatesOf_def)
qed

lemma sorted_duplicatesOf: "sorted (duplicatesOf ns)"
  by (simp add: duplicatesOf_def)

lemma distinct_count_le1: "distinct ns \<longleftrightarrow> (\<forall>n \<in> set ns. count_list ns n \<le> 1)"
proof (induction ns)
  case Nil
  show ?case by simp
next
  case (Cons a ns)
  show ?case
  proof (cases "a \<in> set ns")
    case True
    then have "count_list ns a \<noteq> 0" by (simp only: count_list_0_iff not_not)
    then have "0 < count_list ns a" by simp
    with True show ?thesis by auto
  next
    case False
    then have "count_list ns a = 0" by (simp add: count_list_0_iff)
    with False Cons show ?thesis by auto
  qed
qed

lemma duplicatesOf_empty_iff: "duplicatesOf ns = [] \<longleftrightarrow> distinct ns"
proof -
  have "duplicatesOf ns = [] \<longleftrightarrow> set (duplicatesOf ns) = {}" by simp
  also have "\<dots> \<longleftrightarrow> (\<forall>n \<in> set ns. count_list ns n \<le> 1)"
    by (auto simp: set_duplicatesOf not_less)
  also have "\<dots> \<longleftrightarrow> distinct ns" by (simp add: distinct_count_le1)
  finally show ?thesis .
qed

lemma sublist_join: "x \<in> set xs \<Longrightarrow> sublist x (join sep xs)"
proof (induction sep xs rule: join.induct)
  case (3 sep a b ys)
  show ?case
  proof (cases "x = a")
    case True
    then show ?thesis by simp
  next
    case False
    with 3 have "sublist x (join sep (b # ys))" by simp
    then have "sublist x ((a @ sep) @ join sep (b # ys))"
      by (metis sublist_append)
    then show ?thesis by simp
  qed
qed simp_all

lemma sublist_trans: "sublist a b \<Longrightarrow> sublist b c \<Longrightarrow> sublist a c"
  by (rule sublist_order.order_trans)

lemma sublist_of_suffix_part: "sublist d (p @ d)"
  by simp

text \<open>
  C5. A name list with a repeated element makes \<open>assertUniqueNames\<close> throw, and the message
  holds the list of the repeated names, sorted and each once (one line \<open>- name\<close> per
  name, so every repeated name is in the message), the query name, the file name and
  the remediation guidance, which is the sentence on named parameters and column aliases
  that \<open>validate.ts\<close> writes; a name list with no repeated element does not throw.
\<close>

theorem assertUniqueNames_throws_iff_repeated:
  "(\<not> distinct (names options) \<longrightarrow>
      (\<exists>msg ds. assertUniqueNames options = Inl (Error msg)
         \<and> sorted ds \<and> distinct ds
         \<and> set ds = {n \<in> set (names options). 1 < count_list (names options) n}
         \<and> sublist (join [CHR 0x0A] (map (\<lambda>d. ''- '' @ d) ds)) msg
         \<and> (\<forall>d \<in> set ds. sublist d msg)
         \<and> sublist (queryName options) msg
         \<and> sublist (fileName options) msg
         \<and> sublist ''Disambiguate using named parameters (sqlc.arg/sqlc.narg) or explicit column aliases.'' msg
         \<and> sublist ''named parameters'' msg
         \<and> sublist ''column aliases'' msg))
   \<and> (distinct (names options) \<longrightarrow> assertUniqueNames options = Inr ())"
proof (intro conjI impI)
  assume "distinct (names options)"
  then show "assertUniqueNames options = Inr ()"
    by (simp add: assertUniqueNames_def duplicatesOf_empty_iff)
next
  assume rep: "\<not> distinct (names options)"
  define ds where "ds = duplicatesOf (names options)"
  define lines where "lines =
    [''sqlc-gen-typescript: ambiguous '' @ kindText (kind options) @ '' names for query ''
       @ quote @ queryName options @ quote @ '' ('' @ fileName options @ '')'',
     '''',
     ''The TypeScript generator produced duplicate identifier(s):'',
     duplicateList ds,
     '''',
     ''Disambiguate using named parameters (sqlc.arg/sqlc.narg) or explicit column aliases.'',
     ''Docs: '' @ NAMED_PARAMS_DOCS_URL]"
  define msg where "msg = join newline lines"
  from rep have "ds \<noteq> []" by (simp add: ds_def duplicatesOf_empty_iff)
  then have thrown: "assertUniqueNames options = Inl (Error msg)"
    by (simp add: assertUniqueNames_def Let_def ds_def msg_def lines_def)
  have in_msg: "sublist l msg" if "l \<in> set lines" for l
    using that by (simp only: msg_def sublist_join)
  have first: "sublist (hd lines) msg" by (rule in_msg) (simp add: lines_def)
  have dl: "sublist (duplicateList ds) msg" by (rule in_msg) (simp add: lines_def)
  have dl': "sublist (join [CHR 0x0A] (map (\<lambda>d. ''- '' @ d) ds)) msg"
    using dl by (simp add: duplicateList_def newline_def)
  have each: "sublist d msg" if "d \<in> set ds" for d
  proof -
    have "sublist (''- '' @ d) (duplicateList ds)"
      unfolding duplicateList_def by (rule sublist_join) (use that in auto)
    moreover have "sublist d (''- '' @ d)" by (rule sublist_of_suffix_part)
    ultimately show ?thesis using dl by (blast intro: sublist_trans)
  qed
  have qn: "sublist (queryName options) msg"
  proof -
    have "hd lines =
        (''sqlc-gen-typescript: ambiguous '' @ kindText (kind options) @ '' names for query '' @ quote)
        @ queryName options @ (quote @ '' ('' @ fileName options @ '')'')"
      unfolding lines_def list.sel by (simp only: append_assoc)
    then have "sublist (queryName options) (hd lines)"
      by (simp only: sublist_appendI)
    then show ?thesis using first by (rule sublist_trans)
  qed
  have fn: "sublist (fileName options) msg"
  proof -
    have "hd lines =
        (''sqlc-gen-typescript: ambiguous '' @ kindText (kind options) @ '' names for query '' @ quote
          @ queryName options @ quote @ '' ('')
        @ fileName options @ '')''"
      unfolding lines_def list.sel by (simp only: append_assoc)
    then have "sublist (fileName options) (hd lines)"
      by (simp only: sublist_appendI)
    then show ?thesis using first by (rule sublist_trans)
  qed
  have gd: "sublist ''Disambiguate using named parameters (sqlc.arg/sqlc.narg) or explicit column aliases.'' msg"
    by (rule in_msg) (simp add: lines_def)
  have np: "sublist ''named parameters'' msg"
  proof -
    have "''Disambiguate using named parameters (sqlc.arg/sqlc.narg) or explicit column aliases.''
        = ''Disambiguate using '' @ ''named parameters''
          @ '' (sqlc.arg/sqlc.narg) or explicit column aliases.''"
      by simp
    then have "sublist ''named parameters'' ''Disambiguate using named parameters (sqlc.arg/sqlc.narg) or explicit column aliases.''"
      by (simp only: sublist_appendI)
    then show ?thesis using gd by (rule sublist_trans)
  qed
  have ca: "sublist ''column aliases'' msg"
  proof -
    have "''Disambiguate using named parameters (sqlc.arg/sqlc.narg) or explicit column aliases.''
        = ''Disambiguate using named parameters (sqlc.arg/sqlc.narg) or explicit ''
          @ ''column aliases'' @ ''.''"
      by simp
    then have "sublist ''column aliases'' ''Disambiguate using named parameters (sqlc.arg/sqlc.narg) or explicit column aliases.''"
      by (simp only: sublist_appendI)
    then show ?thesis using gd by (rule sublist_trans)
  qed
  show "\<exists>msg ds. assertUniqueNames options = Inl (Error msg)
         \<and> sorted ds \<and> distinct ds
         \<and> set ds = {n \<in> set (names options). 1 < count_list (names options) n}
         \<and> sublist (join [CHR 0x0A] (map (\<lambda>d. ''- '' @ d) ds)) msg
         \<and> (\<forall>d \<in> set ds. sublist d msg)
         \<and> sublist (queryName options) msg
         \<and> sublist (fileName options) msg
         \<and> sublist ''Disambiguate using named parameters (sqlc.arg/sqlc.narg) or explicit column aliases.'' msg
         \<and> sublist ''named parameters'' msg
         \<and> sublist ''column aliases'' msg"
    using thrown dl' each qn fn gd np ca
    by (intro exI [of _ msg] exI [of _ ds])
       (simp add: ds_def sorted_duplicatesOf distinct_duplicatesOf set_duplicatesOf)
qed

theorem assertUniqueNames_throws_iff_repeated_witness:
  "(\<exists>msg. assertUniqueNames \<lparr>kind = KArgument, queryName = ''GetJobRunStats'',
        fileName = ''scheduled_job_runs.sql'', names = [''startedAt'', ''startedAt'']\<rparr> = Inl (Error msg)
      \<and> sublist ''startedAt'' msg \<and> sublist ''GetJobRunStats'' msg
      \<and> sublist ''scheduled_job_runs.sql'' msg
      \<and> sublist ''Disambiguate using named parameters (sqlc.arg/sqlc.narg) or explicit column aliases.'' msg)
   \<and> assertUniqueNames \<lparr>kind = KColumn, queryName = ''ListUsers'', fileName = ''users.sql'',
        names = [''id'', ''createdAt'']\<rparr> = Inr ()"
proof -
  let ?o1 = "\<lparr>kind = KArgument, queryName = ''GetJobRunStats'',
        fileName = ''scheduled_job_runs.sql'', names = [''startedAt'', ''startedAt'']\<rparr>"
  let ?o2 = "\<lparr>kind = KColumn, queryName = ''ListUsers'', fileName = ''users.sql'',
        names = [''id'', ''createdAt'']\<rparr>"
  have rep: "\<not> distinct (names ?o1)" by simp
  from assertUniqueNames_throws_iff_repeated [of ?o1] rep
  obtain msg ds where m: "assertUniqueNames ?o1 = Inl (Error msg)"
      and ds: "set ds = {n \<in> set (names ?o1). 1 < count_list (names ?o1) n}"
      and each: "\<forall>d \<in> set ds. sublist d msg"
      and rest: "sublist (queryName ?o1) msg" "sublist (fileName ?o1) msg"
        "sublist ''Disambiguate using named parameters (sqlc.arg/sqlc.narg) or explicit column aliases.'' msg"
    by blast
  from ds have "''startedAt'' \<in> set ds" by simp
  with each have "sublist ''startedAt'' msg" by blast
  moreover have "distinct (names ?o2)" by simp
  with assertUniqueNames_throws_iff_repeated [of ?o2]
  have "assertUniqueNames ?o2 = Inr ()" by blast
  ultimately show ?thesis using m rest by simp
qed

section \<open>Properties of the type mapper\<close>

lemma arrayLevels_funpow: "arrayLevels ((ArrayTypeNode ^^ n) t) = n + arrayLevels t"
  by (induction n) simp_all

lemma includesNull_wrapNull:
  "\<not> includesNull t \<Longrightarrow> includesNull (wrapNull c t) \<longleftrightarrow> \<not> notNull c"
  by (simp add: wrapNull_def includesNull_def)

lemma funpow_Array_cases:
  "(ArrayTypeNode ^^ n) t = t \<or> (\<exists>u. (ArrayTypeNode ^^ n) t = ArrayTypeNode u)"
  by (cases n) simp_all

lemma not_null_funpow:
  "t \<noteq> LiteralTypeNode NullLiteral \<Longrightarrow> (ArrayTypeNode ^^ n) t \<noteq> LiteralTypeNode NullLiteral"
  using funpow_Array_cases [of n t] by auto

lemma includesNull_funpow:
  "\<not> includesNull t \<Longrightarrow> \<not> includesNull ((ArrayTypeNode ^^ n) t)"
  using funpow_Array_cases [of n t] by (auto simp: includesNull_def)

lemma includesNull_wrapArray: "\<not> includesNull t \<Longrightarrow> \<not> includesNull (wrapArray c t)"
  by (simp add: wrapArray_def includesNull_funpow)

lemma not_null_wrapArray:
  "t \<noteq> LiteralTypeNode NullLiteral \<Longrightarrow> wrapArray c t \<noteq> LiteralTypeNode NullLiteral"
  by (simp add: wrapArray_def not_null_funpow)

lemma withoutNull_id: "\<not> includesNull t \<Longrightarrow> withoutNull t = t"
  by (cases t rule: withoutNull.cases) (simp_all add: includesNull_def)

lemma withoutNull_wrapNull: "\<not> includesNull t \<Longrightarrow> withoutNull (wrapNull c t) = t"
  by (simp add: wrapNull_def withoutNull_id)

lemma plain_commonBaseType: "plainType (commonBaseType n)"
  by (simp add: commonBaseType_def plainType_def includesNull_def)

lemma plain_classify: "classify n = Some t \<Longrightarrow> plainType t"
  by (auto simp: classify_def plainType_def includesNull_def split: if_splits)

lemma plain_reference: "plainType (TypeReferenceNode n [])"
  by (simp add: plainType_def includesNull_def)

text \<open>The shape of a wrapped type, read back.\<close>

lemma wrapped_shape:
  assumes "plainType b"
  shows "includesNull (wrapNull c (wrapArray c b)) \<longleftrightarrow> \<not> notNull c"
    and "withoutNull (wrapNull c (wrapArray c b)) = wrapArray c b"
    and "arrayLevels (wrapArray c b) =
           (if isArray c \<or> arrayDims c > 0 then nat (arrayDimsOf c) else 0)"
    and "includesNull (wrapNull c (wrapArray c b)) \<Longrightarrow> arrayLevels (wrapNull c (wrapArray c b)) = 0"
proof -
  from assms have b: "\<not> includesNull b" "b \<noteq> LiteralTypeNode NullLiteral" "arrayLevels b = 0"
    by (simp_all add: plainType_def)
  show "includesNull (wrapNull c (wrapArray c b)) \<longleftrightarrow> \<not> notNull c"
    using b by (simp add: includesNull_wrapNull includesNull_wrapArray)
  show "withoutNull (wrapNull c (wrapArray c b)) = wrapArray c b"
    using b by (simp add: withoutNull_wrapNull includesNull_wrapArray)
  show "arrayLevels (wrapArray c b) =
           (if isArray c \<or> arrayDims c > 0 then nat (arrayDimsOf c) else 0)"
    using b by (simp add: wrapArray_def arrayLevels_funpow)
  show "arrayLevels (wrapNull c (wrapArray c b)) = 0" if "includesNull (wrapNull c (wrapArray c b))"
  proof -
    from that b have "\<not> notNull c" by (simp add: includesNull_wrapNull includesNull_wrapArray)
    then show ?thesis by (simp add: wrapNull_def)
  qed
qed

lemma columnType_typed:
  assumes "col_type c = Some n" and "columnType toUpperCase em (Some c) = Inr T"
  shows "\<exists>b. plainType b \<and> T = wrapNull c (wrapArray c b)"
proof (cases "map_has em (toLowerCase (stripPgCatalog n))")
  case True
  with assms have "T = wrapNull c (wrapArray c (TypeReferenceNode (pascalCase toUpperCase (toLowerCase (stripPgCatalog n))) []))"
    by (auto simp: columnType_def Let_def wrapNull_def wrapArray_def split: if_splits)
  then show ?thesis using plain_reference by blast
next
  case False
  with assms obtain b where "classify (toLowerCase (stripPgCatalog n)) = Some b"
      and "T = wrapNull c (wrapArray c b)"
    by (auto simp: columnType_def Let_def split: option.splits if_splits)
  then show ?thesis using plain_classify by blast
qed

lemma commonColumnType_typed:
  "col_type c = Some n \<Longrightarrow>
     commonColumnType (Some c) = wrapNull c (wrapArray c (commonBaseType (toLowerCase (stripPgCatalog n))))"
  by (simp add: commonColumnType_def)

lemma shape_facts:
  assumes "plainType b" and "T = wrapNull c (wrapArray c b)"
  shows "(includesNull T \<longleftrightarrow> \<not> notNull c)
     \<and> (includesNull T \<longrightarrow> T = UnionTypeNode [withoutNull T, LiteralTypeNode NullLiteral])
     \<and> (isArray c \<and> arrayDims c = 0 \<longrightarrow> arrayLevels (withoutNull T) = 1)
     \<and> (arrayDims c = 3 \<longrightarrow> arrayLevels (withoutNull T) = 3)"
proof -
  note w = wrapped_shape [OF assms(1), of c]
  have 1: "includesNull T \<longleftrightarrow> \<not> notNull c" using w(1) assms(2) by simp
  have wn: "withoutNull T = wrapArray c b" using w(2) assms(2) by simp
  have 2: "T = UnionTypeNode [withoutNull T, LiteralTypeNode NullLiteral]" if "includesNull T"
  proof -
    from that 1 have "\<not> notNull c" by simp
    then show ?thesis unfolding wn by (simp add: assms(2) wrapNull_def)
  qed
  have 3: "arrayLevels (withoutNull T) = 1" if "isArray c \<and> arrayDims c = 0"
    using that w(3) by (simp add: wn arrayDimsOf_def)
  have 4: "arrayLevels (withoutNull T) = 3" if "arrayDims c = 3"
    using that w(3) by (simp add: wn arrayDimsOf_def)
  from 1 2 3 4 show ?thesis by blast
qed

text \<open>
  C6 (amended). In the PostgreSQL drivers (the shared positional driver and the
  tagged-template driver, where it returns a type), for every column that has a declared
  type: the mapped type has the null alternative if and only if \<open>notNull\<close> is false,
  whatever the base type; the null alternative, when present, is the outermost node, a
  union of the array-wrapped type and \<open>null\<close>; under it, \<open>isArray = true\<close> with
  \<open>arrayDims = 0\<close> gives exactly one array level and \<open>arrayDims = 3\<close> exactly three.
\<close>

theorem columnType_null_and_array_shape:
  assumes "col_type c = Some n"
  shows "(let T = commonColumnType (Some c) in
            (includesNull T \<longleftrightarrow> \<not> notNull c)
          \<and> (includesNull T \<longrightarrow> T = UnionTypeNode [withoutNull T, LiteralTypeNode NullLiteral])
          \<and> (isArray c \<and> arrayDims c = 0 \<longrightarrow> arrayLevels (withoutNull T) = 1)
          \<and> (arrayDims c = 3 \<longrightarrow> arrayLevels (withoutNull T) = 3))
       \<and> (\<forall>T. columnType toUpperCase enumMap (Some c) = Inr T \<longrightarrow>
            (includesNull T \<longleftrightarrow> \<not> notNull c)
          \<and> (includesNull T \<longrightarrow> T = UnionTypeNode [withoutNull T, LiteralTypeNode NullLiteral])
          \<and> (isArray c \<and> arrayDims c = 0 \<longrightarrow> arrayLevels (withoutNull T) = 1)
          \<and> (arrayDims c = 3 \<longrightarrow> arrayLevels (withoutNull T) = 3))"
proof -
  have common: "let T = commonColumnType (Some c) in
            (includesNull T \<longleftrightarrow> \<not> notNull c)
          \<and> (includesNull T \<longrightarrow> T = UnionTypeNode [withoutNull T, LiteralTypeNode NullLiteral])
          \<and> (isArray c \<and> arrayDims c = 0 \<longrightarrow> arrayLevels (withoutNull T) = 1)
          \<and> (arrayDims c = 3 \<longrightarrow> arrayLevels (withoutNull T) = 3)"
    unfolding Let_def
    by (rule shape_facts [OF plain_commonBaseType commonColumnType_typed [OF assms]])
  have template: "(includesNull T \<longleftrightarrow> \<not> notNull c)
          \<and> (includesNull T \<longrightarrow> T = UnionTypeNode [withoutNull T, LiteralTypeNode NullLiteral])
          \<and> (isArray c \<and> arrayDims c = 0 \<longrightarrow> arrayLevels (withoutNull T) = 1)
          \<and> (arrayDims c = 3 \<longrightarrow> arrayLevels (withoutNull T) = 3)"
    if "columnType toUpperCase enumMap (Some c) = Inr T" for T
  proof -
    from assms that obtain b where "plainType b" "T = wrapNull c (wrapArray c b)"
      using columnType_typed by blast
    then show ?thesis by (rule shape_facts)
  qed
  from common template show ?thesis by blast
qed

lemmas eval_defs =
  commonColumnType_def columnType_def wrapNull_def wrapArray_def arrayDimsOf_def
  commonBaseType_def classify_def toLowerCase_def lowerChar_def upperCaseUnits_def lowerCaseUnits_def stripPgCatalog_def
  startsWith_def pgCatalog_def commonStringNames_def commonNumberNames_def dateNames_def
  booleanNames_def numberNames_def jsonNames_def stringNames_def geometricNames_def
  map_has_def includesNull_def

theorem columnType_null_and_array_shape_witness:
  "col_type \<lparr>col_name = ''tags'', notNull = False, isArray = True, arrayDims = 0,
       col_type = Some ''pg_catalog.TEXT''\<rparr> = Some ''pg_catalog.TEXT''
   \<and> commonColumnType (Some \<lparr>col_name = ''tags'', notNull = False, isArray = True, arrayDims = 0,
       col_type = Some ''pg_catalog.TEXT''\<rparr>)
     = UnionTypeNode [ArrayTypeNode (KeywordTypeNode StringKeyword), LiteralTypeNode NullLiteral]
   \<and> columnType sampleUpperCase [] (Some \<lparr>col_name = ''tags'', notNull = False, isArray = True, arrayDims = 0,
       col_type = Some ''pg_catalog.TEXT''\<rparr>)
     = Inr (UnionTypeNode [ArrayTypeNode (KeywordTypeNode StringKeyword), LiteralTypeNode NullLiteral])
   \<and> includesNull (commonColumnType (Some \<lparr>col_name = ''tags'', notNull = False, isArray = True,
       arrayDims = 0, col_type = Some ''pg_catalog.TEXT''\<rparr>))
   \<and> arrayLevels (withoutNull (commonColumnType (Some \<lparr>col_name = ''tags'', notNull = False,
       isArray = True, arrayDims = 0, col_type = Some ''pg_catalog.TEXT''\<rparr>))) = 1"
  using columnType_null_and_array_shape
    [of "\<lparr>col_name = ''tags'', notNull = False, isArray = True, arrayDims = 0,
          col_type = Some ''pg_catalog.TEXT''\<rparr>" "''pg_catalog.TEXT''" sampleUpperCase "[]"]
  by (simp add: eval_defs)

text \<open>
  The claim as stated, for every column, fails on a column with no declared type: it maps
  to the bare \<open>any\<close> with no null alternative and no array level, though \<open>notNull\<close> is
  false and \<open>arrayDims\<close> is 3.
\<close>

theorem columnType_null_iff_counterexample:
  "notNull \<lparr>col_name = ''expr'', notNull = False, isArray = True, arrayDims = 3,
       col_type = None\<rparr> = False
   \<and> commonColumnType (Some \<lparr>col_name = ''expr'', notNull = False, isArray = True, arrayDims = 3,
       col_type = None\<rparr>) = KeywordTypeNode AnyKeyword
   \<and> columnType sampleUpperCase [] (Some \<lparr>col_name = ''expr'', notNull = False, isArray = True, arrayDims = 3,
       col_type = None\<rparr>) = Inr (KeywordTypeNode AnyKeyword)
   \<and> \<not> includesNull (KeywordTypeNode AnyKeyword)
   \<and> arrayLevels (withoutNull (KeywordTypeNode AnyKeyword)) = 0"
  by (simp add: commonColumnType_def columnType_def includesNull_def)

lemma sublist_in_geometricMessage: "sublist n (geometricMessage n)"
proof -
  have "geometricMessage n = (''Unrecognized PostgreSQL type: '' @ dquote) @ n @ (dquote @ ''. ''
     @ ''Please add support for this type in sqlc-gen-typescript/src/drivers/postgres.ts'')"
    unfolding geometricMessage_def by (simp only: append_assoc)
  then show ?thesis by (simp only: sublist_appendI)
qed

lemma sublist_type_in_unrecognizedMessage: "sublist n (unrecognizedMessage n c)"
proof -
  obtain post where "unrecognizedMessage n c = (''Unrecognized PostgreSQL type: '' @ dquote) @ n @ post"
    unfolding unrecognizedMessage_def by (simp only: append_assoc)
  then show ?thesis by (simp only: sublist_appendI)
qed

lemma sublist_column_in_unrecognizedMessage: "sublist (nameOrUnknown c) (unrecognizedMessage n c)"
proof -
  obtain post where "unrecognizedMessage n c =
      (''Unrecognized PostgreSQL type: '' @ dquote @ n @ dquote @ '' for column '' @ dquote)
      @ nameOrUnknown c @ post"
    unfolding unrecognizedMessage_def by (simp only: append_assoc)
  then show ?thesis by (simp only: sublist_appendI)
qed

text \<open>
  C7 (amended). \<open>columnType\<close> of a permissive driver always returns a type. In every
  driver, the tagged-template (strict) one included, an absent column and a column with no
  declared type map to \<open>any\<close>. The strict driver throws exactly for a column with a
  declared type that, lower-cased and without the \<open>pg_catalog.\<close> prefix, is neither an
  enum of the map nor a name its switch assigns a type to, and these are the 57 names
  listed; the message holds the type name as declared and, unless the type is one of the
  geometric names, the column name (\<open>unknown\<close> for an empty name).
\<close>

theorem columnType_total_or_classification_error:
  "(permissive d \<longrightarrow> (\<exists>T. driverColumnType d toUpperCase enumMap col = Inr T))
   \<and> driverColumnType d toUpperCase enumMap None = Inr (KeywordTypeNode AnyKeyword)
   \<and> (col_type c = None \<longrightarrow> driverColumnType d toUpperCase enumMap (Some c) = Inr (KeywordTypeNode AnyKeyword))
   \<and> (col_type c = Some n \<longrightarrow>
        (if map_has enumMap (toLowerCase (stripPgCatalog n))
            \<or> classify (toLowerCase (stripPgCatalog n)) \<noteq> None
         then \<exists>T. columnType toUpperCase enumMap (Some c) = Inr T
         else \<exists>msg. columnType toUpperCase enumMap (Some c) = Inl (Error msg) \<and> sublist n msg
                \<and> (toLowerCase (stripPgCatalog n) \<notin> set geometricNames
                     \<longrightarrow> sublist (nameOrUnknown c) msg)))
   \<and> (classify l \<noteq> None \<longleftrightarrow>
        l \<in> set [''bool'', ''boolean'', ''bytea'', ''date'', ''timestamp'', ''timestamp without time zone'',
           ''timestamptz'', ''timestamp with time zone'', ''float4'', ''real'', ''float8'',
           ''float'', ''double precision'', ''int2'', ''smallint'', ''int4'', ''int'',
           ''integer'', ''int8'', ''bigint'', ''bigserial'', ''serial'', ''serial2'',
           ''serial4'', ''serial8'', ''smallserial'', ''oid'', ''json'', ''jsonb'', ''void'',
           ''text'', ''varchar'', ''character varying'', ''char'', ''character'', ''bpchar'',
           ''name'', ''uuid'', ''citext'', ''inet'', ''cidr'', ''macaddr'', ''macaddr8'',
           ''money'', ''numeric'', ''decimal'', ''xml'', ''bit'', ''varbit'', ''bit varying'',
           ''interval'', ''time'', ''time without time zone'', ''timetz'',
           ''time with time zone'', ''tsvector'', ''tsquery''])"
proof -
  have 1: "\<exists>T. driverColumnType d toUpperCase enumMap col = Inr T" if "permissive d"
    using that by (cases d) (simp_all add: driverColumnType_def permissive_def)
  have 2: "driverColumnType d toUpperCase enumMap None = Inr (KeywordTypeNode AnyKeyword)"
    by (cases d) (simp_all add: driverColumnType_def commonColumnType_def sqliteColumnType_def
          columnType_def)
  have 3: "driverColumnType d toUpperCase enumMap (Some c) = Inr (KeywordTypeNode AnyKeyword)"
    if "col_type c = None"
    using that
    by (cases d) (simp_all add: driverColumnType_def commonColumnType_def sqliteColumnType_def
          columnType_def)
  have 4: "if map_has enumMap (toLowerCase (stripPgCatalog n))
            \<or> classify (toLowerCase (stripPgCatalog n)) \<noteq> None
         then \<exists>T. columnType toUpperCase enumMap (Some c) = Inr T
         else \<exists>msg. columnType toUpperCase enumMap (Some c) = Inl (Error msg) \<and> sublist n msg
                \<and> (toLowerCase (stripPgCatalog n) \<notin> set geometricNames
                     \<longrightarrow> sublist (nameOrUnknown c) msg)"
    if "col_type c = Some n"
    using that
    by (auto simp: columnType_def Let_def sublist_in_geometricMessage
          sublist_type_in_unrecognizedMessage sublist_column_in_unrecognizedMessage
          split: option.splits)
  have 5: "classify l \<noteq> None \<longleftrightarrow>
        l \<in> set [''bool'', ''boolean'', ''bytea'', ''date'', ''timestamp'', ''timestamp without time zone'',
           ''timestamptz'', ''timestamp with time zone'', ''float4'', ''real'', ''float8'',
           ''float'', ''double precision'', ''int2'', ''smallint'', ''int4'', ''int'',
           ''integer'', ''int8'', ''bigint'', ''bigserial'', ''serial'', ''serial2'',
           ''serial4'', ''serial8'', ''smallserial'', ''oid'', ''json'', ''jsonb'', ''void'',
           ''text'', ''varchar'', ''character varying'', ''char'', ''character'', ''bpchar'',
           ''name'', ''uuid'', ''citext'', ''inet'', ''cidr'', ''macaddr'', ''macaddr8'',
           ''money'', ''numeric'', ''decimal'', ''xml'', ''bit'', ''varbit'', ''bit varying'',
           ''interval'', ''time'', ''time without time zone'', ''timetz'',
           ''time with time zone'', ''tsvector'', ''tsquery'']"
    by (simp add: classify_def booleanNames_def dateNames_def numberNames_def jsonNames_def
          stringNames_def)
  from 1 2 3 4 5 show ?thesis by blast
qed

theorem columnType_total_or_classification_error_witness:
  "permissive PostgresCommonDriver
   \<and> driverColumnType PostgresCommonDriver sampleUpperCase [] None = Inr (KeywordTypeNode AnyKeyword)
   \<and> driverColumnType BunSqliteDriver sampleUpperCase []
        (Some \<lparr>col_name = ''expr'', notNull = True, isArray = False, arrayDims = 0, col_type = None\<rparr>)
      = Inr (KeywordTypeNode AnyKeyword)
   \<and> (\<exists>msg. columnType sampleUpperCase []
        (Some \<lparr>col_name = ''attrs'', notNull = True, isArray = False, arrayDims = 0,
           col_type = Some ''hstore''\<rparr>) = Inl (Error msg)
        \<and> sublist ''hstore'' msg \<and> sublist ''attrs'' msg)
   \<and> toLowerCase [CHR 0x43, CHR 0x41, CHR 0x46, CHR 0xC9] = [CHR 0x63, CHR 0x61, CHR 0x66, CHR 0xE9]
   \<and> columnType sampleUpperCase
        [([CHR 0x63, CHR 0x61, CHR 0x66, CHR 0xE9], \<lparr>enum_name = [CHR 0x63, CHR 0x61, CHR 0x66, CHR 0xE9], vals = [''latte'']\<rparr>)]
        (Some \<lparr>col_name = ''drink'', notNull = True, isArray = False, arrayDims = 0,
           col_type = Some [CHR 0x43, CHR 0x41, CHR 0x46, CHR 0xC9]\<rparr>)
      = Inr (TypeReferenceNode [CHR 0x43, CHR 0x61, CHR 0x66, CHR 0xE9] [])"
  using columnType_total_or_classification_error
    [of PostgresCommonDriver sampleUpperCase "[]" None
        "\<lparr>col_name = ''attrs'', notNull = True, isArray = False, arrayDims = 0,
           col_type = Some ''hstore''\<rparr>" "''hstore''"]
    columnType_total_or_classification_error
    [of BunSqliteDriver sampleUpperCase "[]" None
        "\<lparr>col_name = ''expr'', notNull = True, isArray = False, arrayDims = 0, col_type = None\<rparr>"
        "''any''"]
  by (simp add: permissive_def nameOrUnknown_def eval_defs pascalCase_def sampleUpperCase_def)

text \<open>
  The claim as stated fails in the strict driver: an absent column and an untyped column
  map to \<open>any\<close>, no error is raised; and the error for a geometric type does not name
  the column.
\<close>

theorem strict_columnType_untyped_counterexample:
  "driverColumnType PostgresTemplateDriver sampleUpperCase [] None = Inr (KeywordTypeNode AnyKeyword)
   \<and> driverColumnType PostgresTemplateDriver sampleUpperCase []
        (Some \<lparr>col_name = ''expr'', notNull = True, isArray = False, arrayDims = 0, col_type = None\<rparr>)
      = Inr (KeywordTypeNode AnyKeyword)
   \<and> columnType sampleUpperCase []
        (Some \<lparr>col_name = ''location'', notNull = True, isArray = False, arrayDims = 0,
           col_type = Some ''point''\<rparr>) = Inl (Error (geometricMessage ''point''))
   \<and> \<not> sublist ''location'' (geometricMessage ''point'')"
proof -
  have "\<not> sublist ''location'' (geometricMessage ''point'')"
    by (simp add: geometricMessage_def dquote_def sublist_code)
  then show ?thesis
    by (simp add: driverColumnType_def eval_defs)
qed

section \<open>Properties of the enum catalog builder\<close>

lemma setAll_append: "setAll (rs @ rs') m = setAll rs' (setAll rs m)"
  by (simp add: setAll_def)

lemma registerEnum_setAll: "registerEnum dflt s e m = setAll (enumRegistrations dflt s e) m"
  by (simp add: registerEnum_def enumRegistrations_def setAll_def Let_def)

lemma fold_registerEnum_setAll:
  "fold (registerEnum dflt s) es m = setAll (concat (map (enumRegistrations dflt s) es)) m"
proof (induction es arbitrary: m)
  case Nil
  show ?case by (simp add: setAll_def)
next
  case (Cons e es)
  have "fold (registerEnum dflt s) (e # es) m
      = fold (registerEnum dflt s) es (registerEnum dflt s e m)" by simp
  also have "\<dots> = setAll (concat (map (enumRegistrations dflt s) es)) (registerEnum dflt s e m)"
    by (rule Cons.IH)
  also have "\<dots> = setAll (concat (map (enumRegistrations dflt s) (e # es))) m"
    by (simp add: registerEnum_setAll setAll_append)
  finally show ?case .
qed

lemma registerSchema_setAll: "registerSchema dflt s m = setAll (schemaRegistrations dflt s) m"
  by (simp add: registerSchema_def schemaRegistrations_def fold_registerEnum_setAll setAll_def)

lemma fold_registerSchema_setAll:
  "fold (registerSchema dflt) ss m = setAll (concat (map (schemaRegistrations dflt) ss)) m"
proof (induction ss arbitrary: m)
  case Nil
  show ?case by (simp add: setAll_def)
next
  case (Cons s ss)
  have "fold (registerSchema dflt) (s # ss) m
      = fold (registerSchema dflt) ss (registerSchema dflt s m)" by simp
  also have "\<dots> = setAll (concat (map (schemaRegistrations dflt) ss)) (registerSchema dflt s m)"
    by (rule Cons.IH)
  also have "\<dots> = setAll (concat (map (schemaRegistrations dflt) (s # ss))) m"
    by (simp add: registerSchema_setAll setAll_append)
  finally show ?case .
qed

lemma buildEnumMap_setAll: "buildEnumMap input = setAll (registrations input) []"
  by (simp add: buildEnumMap_def registrations_def fold_registerSchema_setAll)

lemma map_of_setAll_snoc:
  "map_of (setAll (rs @ [r]) m) k = (if fst r = k then Some (snd r) else map_of (setAll rs m) k)"
  by (simp add: setAll_append) (simp add: setAll_def map_of_map_set)

lemma map_of_setAll_last:
  "map_of (setAll rs []) k =
     (if filter (\<lambda>r. fst r = k) rs = [] then None
      else Some (snd (last (filter (\<lambda>r. fst r = k) rs))))"
proof (induction rs rule: rev_induct)
  case Nil
  show ?case by (simp add: setAll_def)
next
  case (snoc r rs)
  show ?case
    by (simp only: map_of_setAll_snoc snoc.IH) simp
qed

lemma map_get_buildEnumMap:
  "map_get (buildEnumMap input) key =
     (if registeredUnder input key = [] then None else Some (last (registeredUnder input key)))"
  by (simp add: map_get_def buildEnumMap_setAll map_of_setAll_last registeredUnder_def last_map)

lemma map_has_buildEnumMap:
  "map_has (buildEnumMap input) key \<longleftrightarrow> key \<in> fst ` set (registrations input)"
proof -
  have "filter (\<lambda>r. fst r = key) rs = [] \<longleftrightarrow> key \<notin> fst ` set rs" for rs :: "(string \<times> Enum) list"
    by (auto simp: filter_empty_conv)
  then show ?thesis
    by (simp add: map_has_def buildEnumMap_setAll map_of_setAll_last)
qed

lemma set_registrations:
  "set (registrations input) =
     {r. \<exists>s \<in> set (schemasOf input). \<not> isSystemSchema s \<and>
          (\<exists>e \<in> set (enums s). r = (enum_name e, e)
             \<or> (schema_name s \<noteq> defaultSchemaOf input \<and> r = (qualifiedName s e, e)))}"
  by (auto simp: registrations_def schemaRegistrations_def enumRegistrations_def split: if_splits)

text \<open>
  C3 (amended). For every request: a catalog with no schema (or no catalog) gives the
  empty map; a key is in the map exactly when it is the bare name of an enum of a
  non-system schema, or the \<open>schema.name\<close> form of an enum of a non-system schema that is
  not the default schema; and every key maps to the enum registered under it last
  (\<open>Map.set\<close> overwrites: last write wins, also for the bare name that two schemas share).
\<close>

theorem buildEnumMap_registers_last_write_wins:
  "(schemasOf input = [] \<longrightarrow> buildEnumMap input = [])
   \<and> (map_has (buildEnumMap input) key \<longleftrightarrow>
        (\<exists>s \<in> set (schemasOf input). \<not> isSystemSchema s \<and>
           (\<exists>e \<in> set (enums s). key = enum_name e
              \<or> (schema_name s \<noteq> defaultSchemaOf input \<and> key = qualifiedName s e))))
   \<and> map_get (buildEnumMap input) key =
        (if registeredUnder input key = [] then None
         else Some (last (registeredUnder input key)))"
proof -
  have 1: "buildEnumMap input = []" if "schemasOf input = []"
    using that by (simp add: buildEnumMap_def)
  have 2: "map_has (buildEnumMap input) key \<longleftrightarrow>
        (\<exists>s \<in> set (schemasOf input). \<not> isSystemSchema s \<and>
           (\<exists>e \<in> set (enums s). key = enum_name e
              \<or> (schema_name s \<noteq> defaultSchemaOf input \<and> key = qualifiedName s e)))"
    unfolding map_has_buildEnumMap set_registrations by (auto simp: image_iff) 
  from 1 2 map_get_buildEnumMap [of input key] show ?thesis by blast
qed

lemmas enum_eval_defs =
  buildEnumMap_def registerSchema_def registerEnum_def isSystemSchema_def defaultSchemaOf_def
  schemasOf_def qualifiedName_def map_get_def map_has_def registeredUnder_def registrations_def
  schemaRegistrations_def enumRegistrations_def

theorem buildEnumMap_registers_last_write_wins_witness:
  "schemasOf \<lparr>catalog = None, queries = []\<rparr> = []
   \<and> buildEnumMap \<lparr>catalog = None, queries = []\<rparr> = []
   \<and> map_has (buildEnumMap \<lparr>catalog = Some \<lparr>defaultSchema = ''public'', schemas =
          [\<lparr>schema_name = ''pg_catalog'', enums = [\<lparr>enum_name = ''sys'', vals = []\<rparr>]\<rparr>,
           \<lparr>schema_name = ''audit'', enums = [\<lparr>enum_name = ''status'', vals = [''open'']\<rparr>]\<rparr>]\<rparr>,
        queries = []\<rparr>) ''audit.status''
   \<and> \<not> map_has (buildEnumMap \<lparr>catalog = Some \<lparr>defaultSchema = ''public'', schemas =
          [\<lparr>schema_name = ''pg_catalog'', enums = [\<lparr>enum_name = ''sys'', vals = []\<rparr>]\<rparr>,
           \<lparr>schema_name = ''audit'', enums = [\<lparr>enum_name = ''status'', vals = [''open'']\<rparr>]\<rparr>]\<rparr>,
        queries = []\<rparr>) ''sys''"
  using buildEnumMap_registers_last_write_wins [of "\<lparr>catalog = None, queries = []\<rparr>" "''x''"]
    buildEnumMap_registers_last_write_wins [of "\<lparr>catalog = Some \<lparr>defaultSchema = ''public'', schemas =
          [\<lparr>schema_name = ''pg_catalog'', enums = [\<lparr>enum_name = ''sys'', vals = []\<rparr>]\<rparr>,
           \<lparr>schema_name = ''audit'', enums = [\<lparr>enum_name = ''status'', vals = [''open'']\<rparr>]\<rparr>]\<rparr>,
        queries = []\<rparr>" "''audit.status''"]
  by (simp add: enum_eval_defs)

text \<open>
  The claim as stated fails: with the enum \<open>status\<close> in the schemas \<open>public\<close> and \<open>audit\<close>,
  registered in this order, the bare key \<open>status\<close> maps to the enum of \<open>audit\<close>, not to
  the one registered first.
\<close>

theorem buildEnumMap_first_write_counterexample:
  "registeredUnder \<lparr>catalog = Some \<lparr>defaultSchema = ''public'', schemas =
          [\<lparr>schema_name = ''public'', enums = [\<lparr>enum_name = ''status'', vals = [''active'']\<rparr>]\<rparr>,
           \<lparr>schema_name = ''audit'', enums = [\<lparr>enum_name = ''status'', vals = [''open'']\<rparr>]\<rparr>]\<rparr>,
        queries = []\<rparr> ''status''
     = [\<lparr>enum_name = ''status'', vals = [''active'']\<rparr>, \<lparr>enum_name = ''status'', vals = [''open'']\<rparr>]
   \<and> map_get (buildEnumMap \<lparr>catalog = Some \<lparr>defaultSchema = ''public'', schemas =
          [\<lparr>schema_name = ''public'', enums = [\<lparr>enum_name = ''status'', vals = [''active'']\<rparr>]\<rparr>,
           \<lparr>schema_name = ''audit'', enums = [\<lparr>enum_name = ''status'', vals = [''open'']\<rparr>]\<rparr>]\<rparr>,
        queries = []\<rparr>) ''status''
     = Some \<lparr>enum_name = ''status'', vals = [''open'']\<rparr>
   \<and> map_get (buildEnumMap \<lparr>catalog = Some \<lparr>defaultSchema = ''public'', schemas =
          [\<lparr>schema_name = ''public'', enums = [\<lparr>enum_name = ''status'', vals = [''active'']\<rparr>]\<rparr>,
           \<lparr>schema_name = ''audit'', enums = [\<lparr>enum_name = ''status'', vals = [''open'']\<rparr>]\<rparr>]\<rparr>,
        queries = []\<rparr>) ''status''
     \<noteq> Some \<lparr>enum_name = ''status'', vals = [''active'']\<rparr>"
  by (simp add: enum_eval_defs)

section \<open>Properties of the row accessor\<close>

lemma toLowerCase_Nil: "toLowerCase [] = []"
  by (simp add: toLowerCase_def)

lemma stripPgCatalog_Nil: "stripPgCatalog [] = []"
  by (simp add: stripPgCatalog_def startsWith_def pgCatalog_def)

text \<open>
  C10 (amended). In the positional-array driver, for every result column whose type name,
  after a leading \<open>pg_catalog.\<close> (in exactly this spelling) is stripped and the rest is
  lower-cased, is one of \<open>int8\<close>, \<open>bigint\<close>, \<open>bigserial\<close>, \<open>serial8\<close>, the row accessor is
  \<open>Number(row[i])\<close> when the column is not null and
  \<open>row[i] === null ? null : Number(row[i])\<close> when it is nullable; every other column is
  read as \<open>row[i]\<close>.
\<close>

theorem createRowAccessExpression_bigint:
  "createRowAccessExpression col i =
     (if (\<exists>name. col_type col = Some name
            \<and> toLowerCase (stripPgCatalog name) \<in> set [''int8'', ''bigint'', ''bigserial'', ''serial8''])
      then if notNull col
           then CallExpression (Identifier ''Number'')
                  [ElementAccessExpression (Identifier ''row'') (NumericLiteral i)]
           else ConditionalExpression
                  (BinaryExpression (ElementAccessExpression (Identifier ''row'') (NumericLiteral i))
                     EqualsEqualsEqualsToken NullExpr)
                  NullExpr
                  (CallExpression (Identifier ''Number'')
                     [ElementAccessExpression (Identifier ''row'') (NumericLiteral i)])
      else ElementAccessExpression (Identifier ''row'') (NumericLiteral i))"
proof (cases "col_type col")
  case None
  then show ?thesis by (simp add: createRowAccessExpression_def isBigIntType_def)
next
  case (Some name)
  show ?thesis
  proof (cases "name = []")
    case True
    with Some show ?thesis
      by (simp add: createRowAccessExpression_def isBigIntType_def toLowerCase_Nil
            stripPgCatalog_Nil)
  next
    case False
    with Some show ?thesis
      by (simp add: createRowAccessExpression_def isBigIntType_def BIGINT_TYPES_def Let_def)
  qed
qed

text \<open>
  The claim as stated strips the prefix whatever its case; the code's \<open>startsWith\<close> does
  not: a type named \<open>PG_CATALOG.int8\<close> gets no conversion, while \<open>pg_catalog.INT8\<close> does.
\<close>

theorem createRowAccessExpression_prefix_case_counterexample:
  "bigintNameIgnoringCase ''PG_CATALOG.int8''
   \<and> createRowAccessExpression
        \<lparr>col_name = ''id'', notNull = True, isArray = False, arrayDims = 0,
           col_type = Some ''PG_CATALOG.int8''\<rparr> 0
      = ElementAccessExpression (Identifier ''row'') (NumericLiteral 0)
   \<and> createRowAccessExpression
        \<lparr>col_name = ''id'', notNull = True, isArray = False, arrayDims = 0,
           col_type = Some ''pg_catalog.INT8''\<rparr> 0
      = CallExpression (Identifier ''Number'')
          [ElementAccessExpression (Identifier ''row'') (NumericLiteral 0)]"
  by (simp add: bigintNameIgnoringCase_def createRowAccessExpression_def isBigIntType_def
        BIGINT_TYPES_def toLowerCase_def lowerChar_def upperCaseUnits_def lowerCaseUnits_def stripPgCatalog_def startsWith_def
        pgCatalog_def)

section \<open>Properties of the positional-parameter rewriter\<close>













section \<open>Properties of the file assembler\<close>

lemma propertySignatures_names:
  "propertySignatures nameOf typeOf i xs = Inr sigs \<Longrightarrow>
     map fst sigs = map (\<lambda>(i, x). nameOf i x) (enumerate i xs)"
  by (induction xs arbitrary: i sigs) (auto split: sum.splits)

lemma argsStage_Inr:
  assumes "argsStage ext enumMap fname query st = Inr (ai, st')"
  shows "\<exists>decls. fst st' = fst st @ decls
      \<and> (\<forall>d \<in> set decls. \<exists>sigs. d = InterfaceDeclaration (query_name query @ ''Args'') sigs)"
proof (cases "params query = []")
  case True
  with assms have "st' = st" by (simp add: argsStage_def)
  then show ?thesis by simp
next
  case False
  with assms obtain sigs where
    "fst st' = fst st @ [InterfaceDeclaration (query_name query @ ''Args'') sigs]"
    by (auto simp: argsStage_def Let_def split: sum.splits)
  then show ?thesis by simp
qed

lemma rowStage_Inr:
  assumes "rowStage ext enumMap fname query st = Inr (ri, st')"
  shows "(columns query = [] \<longrightarrow> fst st' = fst st)
      \<and> (columns query \<noteq> [] \<longrightarrow>
           (\<exists>sigs. fst st' = fst st @ [InterfaceDeclaration (query_name query @ ''Row'') sigs]
              \<and> map fst sigs = indexedNames (colName ext) (columns query)))"
proof (cases "columns query = []")
  case True
  with assms have "st' = st" by (simp add: rowStage_def)
  with True show ?thesis by simp
next
  case False
  with assms obtain sigs where
    s: "propertySignatures (colName ext) (\<lambda>c. columnType (upperCase ext) enumMap (Some c)) 0 (columns query) = Inr sigs"
    and "fst st' = fst st @ [InterfaceDeclaration (query_name query @ ''Row'') sigs]"
    by (auto simp: rowStage_def Let_def split: sum.splits)
  moreover from s have "map fst sigs = indexedNames (colName ext) (columns query)"
    by (simp add: propertySignatures_names indexedNames_def)
  ultimately show ?thesis using False by blast
qed

lemma declStage_exec:
  assumes "cmd query = '':exec''"
  shows "declStage ext lowerName query ai ri st =
     Inr (fst st @ [FunctionNode (execDecl ext lowerName (sqlText query) ai (params query))], snd st)"
  using assms by (simp add: declStage_def)

text \<open>
  C2 (amended). For every query of kind \<open>:exec\<close> that is emitted, the nodes pushed are the
  argument interface (if any), then the result interface \<open><QueryName>Row\<close> exactly when the
  Column list is not empty (its fields named after the columns), then the function, whose
  return type is \<open>Promise<void>\<close>.
\<close>

theorem exec_row_interface_iff_columns:
  assumes "cmd query = '':exec''"
    and "processQuery ext enumMap fname query (nodes, sets) = Inr (nodes', sets')"
  shows "\<exists>argDecls rowDecls f.
      nodes' = nodes @ argDecls @ rowDecls @ [FunctionNode f]
      \<and> fn_type f = TypeReferenceNode ''Promise'' [KeywordTypeNode VoidKeyword]
      \<and> (\<forall>d \<in> set argDecls. \<exists>sigs. d = InterfaceDeclaration (query_name query @ ''Args'') sigs)
      \<and> (columns query = [] \<longrightarrow> rowDecls = [])
      \<and> (columns query \<noteq> [] \<longrightarrow>
           (\<exists>sigs. rowDecls = [InterfaceDeclaration (query_name query @ ''Row'') sigs]
              \<and> map fst sigs = indexedNames (colName ext) (columns query)))"
proof -
  from assms(2) obtain c cs where name: "query_name query = c # cs"
    by (cases "query_name query") (simp_all add: processQuery_def)
  from assms(2) name obtain ai st1 ri st2 where
    a: "argsStage ext enumMap fname query (nodes, sets) = Inr (ai, st1)"
    and r: "rowStage ext enumMap fname query st1 = Inr (ri, st2)"
    and d: "declStage ext (lowerChar c # cs) query ai ri st2 = Inr (nodes', sets')"
    by (auto simp: processQuery_def Let_def split: sum.splits)
  from argsStage_Inr [OF a] obtain argDecls where
    ad: "fst st1 = nodes @ argDecls"
      "\<forall>d \<in> set argDecls. \<exists>sigs. d = InterfaceDeclaration (query_name query @ ''Args'') sigs"
    by auto
  define rowDecls where "rowDecls = drop (length (fst st1)) (fst st2)"
  from rowStage_Inr [OF r] have
    rd: "fst st2 = fst st1 @ rowDecls"
      "columns query = [] \<longrightarrow> rowDecls = []"
      "columns query \<noteq> [] \<longrightarrow>
           (\<exists>sigs. rowDecls = [InterfaceDeclaration (query_name query @ ''Row'') sigs]
              \<and> map fst sigs = indexedNames (colName ext) (columns query))"
    by (cases "columns query = []"; auto simp: rowDecls_def)+
  define f where "f = execDecl ext (lowerChar c # cs) (sqlText query) ai (params query)"
  from d have "nodes' = fst st2 @ [FunctionNode f]"
    by (simp add: declStage_exec [OF assms(1)] f_def)
  then have "nodes' = nodes @ argDecls @ rowDecls @ [FunctionNode f]"
    by (simp add: rd(1) ad(1))
  moreover have "fn_type f = TypeReferenceNode ''Promise'' [KeywordTypeNode VoidKeyword]"
    by (simp add: f_def execDecl_def)
  ultimately show ?thesis using ad(2) rd(2,3) by blast
qed

lemmas codegen_eval_defs =
  processQuery_def argsStage_def rowStage_def declStage_def assertUniqueNames_def
  duplicatesOf_def countNames_def countStep_def map_get_def map_has_def indexedNames_def
  noteEnum_def getEnumName_def columnType_def classify_def wrapNull_def wrapArray_def
  toLowerCase_def lowerChar_def upperCaseUnits_def lowerCaseUnits_def stripPgCatalog_def startsWith_def pgCatalog_def
  booleanNames_def dateNames_def numberNames_def jsonNames_def stringNames_def
  geometricNames_def sampleExt_def idColumn_def deleteAuthor_def Let_def

lemma deleteAuthor_nodes:
  "processQuery sampleExt [] ''query.sql'' deleteAuthor (preamble, [], []) =
     Inr (preamble @
          [InterfaceDeclaration ''DeleteAuthorRow'' [(''id'', KeywordTypeNode NumberKeyword)],
           FunctionNode (execDecl sampleExt ''deleteAuthor'' ''DELETE FROM authors RETURNING id''
                           None [])],
          [], [])"
  by (simp add: codegen_eval_defs)

theorem exec_row_interface_iff_columns_witness:
  "cmd deleteAuthor = '':exec''
   \<and> columns deleteAuthor \<noteq> []
   \<and> (\<exists>nodes' sets'. processQuery sampleExt [] ''query.sql'' deleteAuthor (preamble, [], [])
         = Inr (nodes', sets')
       \<and> (\<exists>argDecls sigs f. nodes' = preamble @ argDecls
             @ [InterfaceDeclaration (query_name deleteAuthor @ ''Row'') sigs] @ [FunctionNode f]
           \<and> fn_type f = TypeReferenceNode ''Promise'' [KeywordTypeNode VoidKeyword]))"
proof -
  have c: "cmd deleteAuthor = '':exec''" by (simp add: deleteAuthor_def)
  have cols: "columns deleteAuthor \<noteq> []" by (simp add: deleteAuthor_def)
  from exec_row_interface_iff_columns [OF c deleteAuthor_nodes] cols
  show ?thesis using c deleteAuthor_nodes by fastforce
qed

text \<open>
  The claim as stated fails: the \<open>:exec\<close> query \<open>DeleteAuthor\<close> with one result column gets
  the interface \<open>DeleteAuthorRow\<close>.
\<close>

theorem exec_emits_row_interface_counterexample:
  "cmd deleteAuthor = '':exec''
   \<and> processQuery sampleExt [] ''query.sql'' deleteAuthor (preamble, [], []) =
     Inr (preamble @
          [InterfaceDeclaration ''DeleteAuthorRow'' [(''id'', KeywordTypeNode NumberKeyword)],
           FunctionNode (execDecl sampleExt ''deleteAuthor'' ''DELETE FROM authors RETURNING id''
                           None [])],
          [], [])"
  using deleteAuthor_nodes by (simp add: deleteAuthor_def)

lemma map_has_keys: "map_has m k \<longleftrightarrow> k \<in> fst ` set m"
  by (simp add: map_has_def map_of_eq_None_iff)

lemma map_set_key_set: "fst ` set (map_set m k v) = insert k (fst ` set m)"
proof -
  have "set (map fst (map_set m k v)) = insert k (set (map fst m))"
    unfolding map_set_keys by auto
  then show ?thesis by simp
qed

lemma groupStep_keys:
  "map fst (groupStep q m) =
     (if filename q \<in> fst ` set m then map fst m else map fst m @ [filename q])"
proof (cases "map_has m (filename q)")
  case True
  then obtain qs where "map_of m (filename q) = Some qs" by (auto simp: map_has_def)
  with True show ?thesis
    by (simp add: groupStep_def map_get_def map_set_keys map_has_keys)
next
  case False
  then have "map_get (map_set m (filename q) []) (filename q) = Some []"
    by (simp add: map_get_def map_of_map_set)
  with False show ?thesis
    by (simp add: groupStep_def map_set_keys map_has_keys map_set_key_set)
qed

lemma fold_groupStep_keys:
  "fst ` set (fold groupStep qs m) = fst ` set m \<union> filename ` set qs"
proof (induction qs arbitrary: m)
  case Nil
  show ?case by simp
next
  case (Cons q qs)
  have "fst ` set (groupStep q m) = insert (filename q) (fst ` set m)"
    using groupStep_keys [of q m] by (metis (no_types) image_set insert_absorb list.simps(15) rotate1.simps(2) set_append set_rotate1 Un_insert_right sup_bot.right_neutral)
  then show ?case by (simp add: Cons.IH)
qed

lemma groupQueries_keys: "fst ` set (groupQueries qs) = filename ` set qs"
  by (simp add: groupQueries_def fold_groupStep_keys)

lemma printNode_unfold:
  "printNode ext nodes =
     HEADER @ concat (map (\<lambda>node. printerPrintNode ext node @ newline @ newline) nodes)"
proof -
  have "fold (\<lambda>node output. output @ f node) nodes init = init @ concat (map f nodes)"
    for f :: "Node \<Rightarrow> string" and init
    by (induction nodes arbitrary: init) simp_all
  then show ?thesis by (simp add: printNode_def)
qed

lemma printNode_header: "prefix HEADER (printNode ext nodes)"
  by (simp add: printNode_unfold)

lemma processFile_Inr:
  assumes "processFile ext enumMap entry st = Inr st'"
  shows "\<exists>f. fst st' = fst st @ [f] \<and> file_name f = outputName (fst entry)
           \<and> prefix HEADER (contents f)"
  using assms
  by (auto simp: processFile_def printNode_header split: sum.splits prod.splits)

lemma foldM_processFile_Inr:
  "foldM (processFile ext enumMap) entries st = Inr st' \<Longrightarrow>
     \<exists>new. fst st' = fst st @ new
       \<and> map file_name new = map (\<lambda>entry. outputName (fst entry)) entries
       \<and> (\<forall>f \<in> set new. prefix HEADER (contents f))"
proof (induction entries arbitrary: st)
  case Nil
  then show ?case by simp
next
  case (Cons entry entries)
  from Cons.prems obtain st1 where
    1: "processFile ext enumMap entry st = Inr st1"
    and 2: "foldM (processFile ext enumMap) entries st1 = Inr st'"
    by (auto split: sum.splits)
  from processFile_Inr [OF 1] obtain f where
    f: "fst st1 = fst st @ [f]" "file_name f = outputName (fst entry)" "prefix HEADER (contents f)"
    by blast
  from Cons.IH [OF 2] obtain new where
    new: "fst st' = fst st1 @ new"
      "map file_name new = map (\<lambda>entry. outputName (fst entry)) entries"
      "\<forall>f \<in> set new. prefix HEADER (contents f)"
    by blast
  show ?case
    by (rule exI [of _ "f # new"]) (use f new in simp)
qed

lemma codegen_files:
  assumes "codegen ext input = Inr files"
  shows "map file_name files = map (\<lambda>entry. outputName (fst entry)) (groupQueries (queries input))"
    and "\<forall>f \<in> set files. prefix HEADER (contents f)"
proof -
  from assms obtain ue where
    "foldM (processFile ext (buildEnumMap input)) (groupQueries (queries input)) ([], []) = Inr (files, ue)"
    by (auto simp: codegen_def split: sum.splits)
  from foldM_processFile_Inr [OF this]
  show "map file_name files = map (\<lambda>entry. outputName (fst entry)) (groupQueries (queries input))"
    and "\<forall>f \<in> set files. prefix HEADER (contents f)"
    by simp_all
qed

lemma replaceFirstDot_split:
  "CHR ''.'' \<notin> set base \<Longrightarrow> replaceFirstDot (base @ ''.'' @ rest) = base @ ''_'' @ rest"
  by (induction base) auto

text \<open>
  C8 (amended). When the run returns files: for every query filename there is a file whose
  name is the filename with its first \<open>.\<close> replaced by \<open>_\<close> and \<open>.ts\<close> appended (so
  \<open>base.rest\<close> becomes \<open>base_rest.ts\<close>), every file is the file of some query filename, and
  the contents of every file begin with the header comment and an empty line.
\<close>

theorem codegen_file_names_and_header:
  assumes "codegen ext input = Inr files"
  shows "(\<forall>q \<in> set (queries input).
            \<exists>f \<in> set files. file_name f = replaceFirstDot (filename q) @ ''.ts'')
       \<and> (\<forall>f \<in> set files.
            prefix (''// Code generated by sqlc. DO NOT EDIT.'' @ newline @ newline) (contents f)
            \<and> (\<exists>q \<in> set (queries input). file_name f = replaceFirstDot (filename q) @ ''.ts''))
       \<and> (\<forall>base rest. CHR ''.'' \<notin> set base \<longrightarrow>
            replaceFirstDot (base @ ''.'' @ rest) @ ''.ts'' = base @ ''_'' @ rest @ ''.ts'')"
proof -
  note cf = codegen_files [OF assms]
  have names: "set (map file_name files) = outputName ` filename ` set (queries input)"
    unfolding cf(1) using groupQueries_keys [of "queries input"]
    by (simp add: image_image [symmetric] del: image_image)
  have 1: "\<exists>f \<in> set files. file_name f = replaceFirstDot (filename q) @ ''.ts''"
    if "q \<in> set (queries input)" for q
  proof -
    from that have "outputName (filename q) \<in> set (map file_name files)"
      unfolding names by blast
    then show ?thesis by (auto simp: outputName_def)
  qed
  have 2: "\<exists>q \<in> set (queries input). file_name f = replaceFirstDot (filename q) @ ''.ts''"
    if "f \<in> set files" for f
  proof -
    from that have "file_name f \<in> set (map file_name files)" by simp
    then show ?thesis unfolding names by (auto simp: outputName_def)
  qed
  have 3: "prefix (''// Code generated by sqlc. DO NOT EDIT.'' @ newline @ newline) (contents f)"
    if "f \<in> set files" for f
    using cf(2) that by (simp add: HEADER_def)
  have 4: "\<forall>base rest. CHR ''.'' \<notin> set base \<longrightarrow>
            replaceFirstDot (base @ ''.'' @ rest) @ ''.ts'' = base @ ''_'' @ rest @ ''.ts''"
    using replaceFirstDot_split by simp
  from 1 2 3 4 show ?thesis by blast
qed

lemma sample_groups: "groupQueries (queries sampleRequest) = [(''query.sql'', [deleteAuthor])]"
  by (simp add: sampleRequest_def groupQueries_def groupStep_def map_has_def map_get_def
        deleteAuthor_def)

lemma sample_enumMap: "buildEnumMap sampleRequest = []"
  by (simp add: sampleRequest_def buildEnumMap_def schemasOf_def)

lemma sample_codegen:
  "codegen sampleExt sampleRequest =
     Inr [\<lparr>file_name = ''query_sql.ts'',
           contents = printNode sampleExt
             (preamble @
              [InterfaceDeclaration ''DeleteAuthorRow'' [(''id'', KeywordTypeNode NumberKeyword)],
               FunctionNode (execDecl sampleExt ''deleteAuthor''
                               ''DELETE FROM authors RETURNING id'' None [])])\<rparr>]"
  by (simp add: codegen_def sample_groups sample_enumMap processFile_def deleteAuthor_nodes
        enumNodes_def spliceAfterPreamble_def outputName_def)

theorem codegen_file_names_and_header_witness:
  "(\<exists>files. codegen sampleExt sampleRequest = Inr files
      \<and> map file_name files = [''query_sql.ts'']
      \<and> prefix (''// Code generated by sqlc. DO NOT EDIT.'' @ newline @ newline)
           (contents (hd files)))
   \<and> replaceFirstDot (''query'' @ ''.'' @ ''sql'') @ ''.ts'' = ''query_sql.ts''"
proof -
  from codegen_file_names_and_header [OF sample_codegen]
  have "prefix (''// Code generated by sqlc. DO NOT EDIT.'' @ newline @ newline)
     (printNode sampleExt
             (preamble @
              [InterfaceDeclaration ''DeleteAuthorRow'' [(''id'', KeywordTypeNode NumberKeyword)],
               FunctionNode (execDecl sampleExt ''deleteAuthor''
                               ''DELETE FROM authors RETURNING id'' None [])]))"
    by simp
  then show ?thesis by (simp add: sample_codegen)
qed

text \<open>
  The claim as stated fails: the file for \<open>query.sql\<close> is \<open>query_sql.ts\<close>, the extension is
  kept and not replaced.
\<close>

theorem codegen_file_name_counterexample:
  "filename deleteAuthor = ''query.sql''
   \<and> codegen sampleExt \<lparr>catalog = None, queries = [deleteAuthor]\<rparr> =
     Inr [\<lparr>file_name = ''query_sql.ts'',
           contents = printNode sampleExt
             (preamble @
              [InterfaceDeclaration ''DeleteAuthorRow'' [(''id'', KeywordTypeNode NumberKeyword)],
               FunctionNode (execDecl sampleExt ''deleteAuthor''
                               ''DELETE FROM authors RETURNING id'' None [])])\<rparr>]
   \<and> ''query_sql.ts'' \<noteq> ''query.ts''"
  using sample_codegen by (simp add: sampleRequest_def deleteAuthor_def)

section \<open>Properties of error propagation\<close>

lemma propertySignatures_Inl:
  "propertySignatures nameOf typeOf i xs = Inl e \<Longrightarrow> \<exists>x \<in> set xs. typeOf x = Inl e"
  by (induction xs arbitrary: i) (auto split: sum.splits)

lemma columnType_Inl: "columnType toUpperCase enumMap col = Inl e \<Longrightarrow> \<exists>msg. e = Error msg"
  by (auto simp: columnType_def Let_def split: option.splits if_splits)

lemma wrapError_Error:
  "wrapError query fname (Error msg) =
     Error (''Error in query '' @ dquote @ query_name query @ dquote @ '' ('' @ fname @ ''): '' @ msg)"
  by (simp add: wrapError_def errorMessage_def)

text \<open>What a stage raises, and that neither its failure nor the interface name it returns depends on the state.\<close>

lemma argsStage_Inl:
  assumes "argsStage ext enumMap fname query st = Inl e"
  shows "(\<exists>ns. assertUniqueNames \<lparr>kind = KArgument, queryName = query_name query,
              fileName = fname, names = ns\<rparr> = Inl e)
       \<or> (\<exists>p \<in> set (params query). \<exists>msg. columnType (upperCase ext) enumMap (par_column p) = Inl (Error msg)
            \<and> e = Error (''Error in query '' @ dquote @ query_name query @ dquote @ '' (''
                          @ fname @ ''): '' @ msg))"
proof (cases "assertUniqueNames \<lparr>kind = KArgument, queryName = query_name query,
      fileName = fname, names = indexedNames (\<lambda>i p. argName ext i (par_column p)) (params query)\<rparr>")
  case (Inl a)
  with assms have "a = e" by (auto simp: argsStage_def Let_def split: if_splits)
  with Inl show ?thesis by blast
next
  case (Inr b)
  with assms obtain err where
    ps: "propertySignatures (\<lambda>i p. argName ext i (par_column p))
           (\<lambda>p. columnType (upperCase ext) enumMap (par_column p)) 0 (params query) = Inl err"
    and e: "e = wrapError query fname err"
    by (auto simp: argsStage_def Let_def split: if_splits sum.splits)
  from propertySignatures_Inl [OF ps] obtain p where
    p: "p \<in> set (params query)" "columnType (upperCase ext) enumMap (par_column p) = Inl err" by blast
  from columnType_Inl [OF p(2)] obtain msg where "err = Error msg" by blast
  with p e show ?thesis by (auto simp: wrapError_Error)
qed

lemma rowStage_Inl:
  assumes "rowStage ext enumMap fname query st = Inl e"
  shows "(\<exists>ns. assertUniqueNames \<lparr>kind = KColumn, queryName = query_name query,
              fileName = fname, names = ns\<rparr> = Inl e)
       \<or> (\<exists>c \<in> set (columns query). \<exists>msg. columnType (upperCase ext) enumMap (Some c) = Inl (Error msg)
            \<and> e = Error (''Error in query '' @ dquote @ query_name query @ dquote @ '' (''
                          @ fname @ ''): '' @ msg))"
proof (cases "assertUniqueNames \<lparr>kind = KColumn, queryName = query_name query,
      fileName = fname, names = indexedNames (colName ext) (columns query)\<rparr>")
  case (Inl a)
  with assms have "a = e" by (auto simp: rowStage_def Let_def split: if_splits)
  with Inl show ?thesis by blast
next
  case (Inr b)
  with assms obtain err where
    ps: "propertySignatures (colName ext) (\<lambda>c. columnType (upperCase ext) enumMap (Some c)) 0 (columns query)
           = Inl err"
    and e: "e = wrapError query fname err"
    by (auto simp: rowStage_def Let_def split: if_splits sum.splits)
  from propertySignatures_Inl [OF ps] obtain c where
    c: "c \<in> set (columns query)" "columnType (upperCase ext) enumMap (Some c) = Inl err" by blast
  from columnType_Inl [OF c(2)] obtain msg where "err = Error msg" by blast
  with c e show ?thesis by (auto simp: wrapError_Error)
qed

lemma declStage_Inl:
  "declStage ext lowerName query ai ri st = Inl e \<Longrightarrow>
     cmd query = '':execlastid'' \<and> e = Error ''postgres driver does not support :execlastid''"
  by (auto simp: declStage_def Let_def execlastidDecl_def split: if_splits)

lemma argsStage_state:
  "argsStage ext enumMap fname query st = Inl e \<Longrightarrow> argsStage ext enumMap fname query st' = Inl e"
  "argsStage ext enumMap fname query st = Inr (ai, st1) \<Longrightarrow>
     \<exists>st1'. argsStage ext enumMap fname query st' = Inr (ai, st1')"
  by (cases st'; auto simp: argsStage_def Let_def split: if_splits sum.splits)+

lemma rowStage_state:
  "rowStage ext enumMap fname query st = Inl e \<Longrightarrow> rowStage ext enumMap fname query st' = Inl e"
  "rowStage ext enumMap fname query st = Inr (ri, st1) \<Longrightarrow>
     \<exists>st1'. rowStage ext enumMap fname query st' = Inr (ri, st1')"
  by (cases st'; auto simp: rowStage_def Let_def split: if_splits sum.splits)+

lemma declStage_state:
  "declStage ext lowerName query ai ri st = Inl e \<Longrightarrow>
     declStage ext lowerName query ai ri st' = Inl e"
  by (auto simp: declStage_def Let_def execlastidDecl_def split: if_splits)

lemma processQuery_state:
  assumes "processQuery ext enumMap fname query st = Inl e"
  shows "processQuery ext enumMap fname query st' = Inl e"
proof (cases "query_name query")
  case Nil
  with assms show ?thesis by (simp add: processQuery_def)
next
  case (Cons c cs)
  show ?thesis
  proof (cases "argsStage ext enumMap fname query st")
    case (Inl a)
    with assms Cons have "a = e" by (simp add: processQuery_def)
    with Inl argsStage_state(1) [of ext enumMap fname query st e st'] Cons
    show ?thesis by (simp add: processQuery_def)
  next
    case (Inr r)
    obtain ai st1 where r: "r = (ai, st1)" by (cases r)
    from argsStage_state(2) [of ext enumMap fname query st ai st1 st'] Inr r
    obtain st1' where a': "argsStage ext enumMap fname query st' = Inr (ai, st1')" by blast
    show ?thesis
    proof (cases "rowStage ext enumMap fname query st1")
      case (Inl a)
      with assms Cons Inr r have "a = e" by (simp add: processQuery_def)
      with Inl rowStage_state(1) [of ext enumMap fname query st1 e st1'] Cons a'
      show ?thesis by (simp add: processQuery_def)
    next
      case (Inr r2)
      obtain ri st2 where r2: "r2 = (ri, st2)" by (cases r2)
      from rowStage_state(2) [of ext enumMap fname query st1 ri st2 st1'] Inr r2
      obtain st2' where b': "rowStage ext enumMap fname query st1' = Inr (ri, st2')" by blast
      from assms Cons \<open>argsStage ext enumMap fname query st = Inr r\<close> r Inr r2
      have "declStage ext (lowerChar c # cs) query ai ri st2 = Inl e"
        by (simp add: processQuery_def)
      then have "declStage ext (lowerChar c # cs) query ai ri st2' = Inl e"
        by (rule declStage_state)
      with Cons a' b' show ?thesis by (simp add: processQuery_def)
    qed
  qed
qed

lemma processQuery_Inl_iff:
  "processQuery ext enumMap (filename query) query st = Inl e
     \<longleftrightarrow> emissionError ext enumMap query = Some e"
proof
  assume "processQuery ext enumMap (filename query) query st = Inl e"
  then have "processQuery ext enumMap (filename query) query ([], [], []) = Inl e"
    by (rule processQuery_state)
  then show "emissionError ext enumMap query = Some e" by (simp add: emissionError_def)
next
  assume "emissionError ext enumMap query = Some e"
  then have "processQuery ext enumMap (filename query) query ([], [], []) = Inl e"
    by (simp add: emissionError_def split: sum.splits)
  then show "processQuery ext enumMap (filename query) query st = Inl e"
    by (rule processQuery_state)
qed

lemma firstError_Cons:
  "firstError ext em (q # qs) =
     (case emissionError ext em q of Some e \<Rightarrow> Some e | None \<Rightarrow> firstError ext em qs)"
  by (auto simp: firstError_def split: option.splits)

lemma firstError_Nil: "firstError ext em [] = None"
  by (simp add: firstError_def)

lemma firstError_append:
  "firstError ext em (xs @ ys) =
     (case firstError ext em xs of Some e \<Rightarrow> Some e | None \<Rightarrow> firstError ext em ys)"
  by (induction xs) (simp_all add: firstError_Cons firstError_Nil split: option.splits)

lemma foldM_processQuery:
  "\<forall>q \<in> set qs. filename q = fname \<Longrightarrow>
     (case foldM (processQuery ext em fname) qs st of
        Inl e \<Rightarrow> firstError ext em qs = Some e
      | Inr st' \<Rightarrow> firstError ext em qs = None)"
proof (induction qs arbitrary: st)
  case Nil
  show ?case by (simp add: firstError_Nil)
next
  case (Cons q qs)
  then have fn: "filename q = fname" and rest: "\<forall>q \<in> set qs. filename q = fname" by simp_all
  show ?case
  proof (cases "processQuery ext em fname q st")
    case (Inl e)
    then have "emissionError ext em q = Some e"
      using processQuery_Inl_iff [of ext em q st e] fn by simp
    with Inl show ?thesis by (simp add: firstError_Cons)
  next
    case (Inr st1)
    have "emissionError ext em q = None"
    proof (cases "emissionError ext em q")
      case (Some e)
      then have "processQuery ext em fname q st = Inl e"
        using processQuery_Inl_iff [of ext em q st e] fn by simp
      with Inr show ?thesis by simp
    qed simp
    with Inr Cons.IH [OF rest, of st1] show ?thesis
      by (simp add: firstError_Cons split: sum.splits)
  qed
qed

lemma processFile_cases:
  "(case processFile ext em entry st of
      Inl e \<Rightarrow> foldM (processQuery ext em (fst entry)) (snd entry) (preamble, [], snd st) = Inl e
    | Inr st' \<Rightarrow> (\<exists>r. foldM (processQuery ext em (fst entry)) (snd entry) (preamble, [], snd st) = Inr r))"
  by (auto simp: processFile_def split: sum.splits prod.splits)

lemma foldM_processFile:
  "\<forall>entry \<in> set entries. \<forall>q \<in> set (snd entry). filename q = fst entry \<Longrightarrow>
     (case foldM (processFile ext em) entries st of
        Inl e \<Rightarrow> firstError ext em (concat (map snd entries)) = Some e
      | Inr st' \<Rightarrow> firstError ext em (concat (map snd entries)) = None)"
proof (induction entries arbitrary: st)
  case Nil
  show ?case by (simp add: firstError_Nil)
next
  case (Cons entry entries)
  then have here: "\<forall>q \<in> set (snd entry). filename q = fst entry"
    and rest: "\<forall>entry \<in> set entries. \<forall>q \<in> set (snd entry). filename q = fst entry"
    by simp_all
  note q = foldM_processQuery [OF here, of ext em "(preamble, [], snd st)"]
  note f = processFile_cases [of ext em entry st]
  show ?case
  proof (cases "processFile ext em entry st")
    case (Inl e)
    with f q have "firstError ext em (snd entry) = Some e" by simp
    with Inl show ?thesis by (simp add: firstError_append)
  next
    case (Inr st1)
    with f q have "firstError ext em (snd entry) = None" by auto
    with Inr Cons.IH [OF rest, of st1] show ?thesis
      by (simp add: firstError_append split: sum.splits)
  qed
qed

text \<open>The grouping keeps every query, under its own filename, with one entry per filename.\<close>

lemma set_map_set:
  "distinct (map fst m) \<Longrightarrow> set (map_set m k v) = insert (k, v) {e \<in> set m. fst e \<noteq> k}"
  by (induction m k v rule: map_set.induct) (auto simp: image_iff)

lemma set_absent_key: "k \<notin> fst ` set m \<Longrightarrow> {e \<in> set m. fst e \<noteq> k} = set m"
  by (auto simp: image_iff)

lemma groupStep_set:
  assumes "distinct (map fst m)"
  shows "\<exists>qs. (filename q \<in> fst ` set m \<longrightarrow> (filename q, qs) \<in> set m)
           \<and> (filename q \<notin> fst ` set m \<longrightarrow> qs = [])
           \<and> set (groupStep q m) = insert (filename q, qs @ [q]) {e \<in> set m. fst e \<noteq> filename q}"
proof (cases "map_has m (filename q)")
  case True
  then obtain qs where qs: "map_of m (filename q) = Some qs" by (auto simp: map_has_def)
  then have "(filename q, qs) \<in> set m" by (rule map_of_SomeD)
  moreover have "set (groupStep q m) = insert (filename q, qs @ [q]) {e \<in> set m. fst e \<noteq> filename q}"
    using True qs assms by (simp add: groupStep_def map_get_def set_map_set)
  moreover have "filename q \<in> fst ` set m" using True by (simp add: map_has_keys)
  ultimately show ?thesis by blast
next
  case False
  then have absent: "filename q \<notin> fst ` set m" by (simp add: map_has_keys)
  define m1 where "m1 = map_set m (filename q) []"
  have d1: "distinct (map fst m1)" unfolding m1_def using assms by (rule map_set_distinct)
  have s1: "set m1 = insert (filename q, []) (set m)"
    unfolding m1_def using assms absent by (simp add: set_map_set set_absent_key)
  have g1: "map_get m1 (filename q) = Some []"
    by (simp add: m1_def map_get_def map_of_map_set)
  have "groupStep q m = map_set m1 (filename q) ([] @ [q])"
    using False g1 by (simp add: groupStep_def m1_def)
  then have "set (groupStep q m) = insert (filename q, [] @ [q]) {e \<in> set m1. fst e \<noteq> filename q}"
    using d1 by (simp add: set_map_set)
  also have "{e \<in> set m1. fst e \<noteq> filename q} = {e \<in> set m. fst e \<noteq> filename q}"
    unfolding s1 by auto
  finally show ?thesis using absent by blast
qed

lemma groupStep_distinct: "distinct (map fst m) \<Longrightarrow> distinct (map fst (groupStep q m))"
  by (simp add: groupStep_keys)

lemma groupStep_grouped:
  assumes "grouped m"
  shows "grouped (groupStep q m)"
    and "(\<Union>entry \<in> set (groupStep q m). set (snd entry)) = insert q (\<Union>entry \<in> set m. set (snd entry))"
proof -
  from assms have d: "distinct (map fst m)"
    and c: "\<forall>entry \<in> set m. \<forall>q \<in> set (snd entry). filename q = fst entry"
    by (simp_all add: grouped_def)
  from groupStep_set [OF d, of q] obtain qs where
    qs: "filename q \<in> fst ` set m \<longrightarrow> (filename q, qs) \<in> set m"
      "filename q \<notin> fst ` set m \<longrightarrow> qs = []"
      "set (groupStep q m) = insert (filename q, qs @ [q]) {e \<in> set m. fst e \<noteq> filename q}"
    by blast
  have qs_ok: "\<forall>x \<in> set qs. filename x = filename q"
    using qs(1,2) c by (cases "filename q \<in> fst ` set m") auto
  show "grouped (groupStep q m)"
    unfolding grouped_def using groupStep_distinct [OF d, of q] c qs_ok by (auto simp: qs(3))
  have old: "(\<Union>entry \<in> set m. set (snd entry))
      = set qs \<union> (\<Union>entry \<in> {e \<in> set m. fst e \<noteq> filename q}. set (snd entry))"
  proof (cases "filename q \<in> fst ` set m")
    case True
    with qs(1) have mem: "(filename q, qs) \<in> set m" by simp
    have uniq: "e = (filename q, qs)" if "e \<in> set m" "fst e = filename q" for e
    proof -
      from that have "(filename q, snd e) \<in> set m" by (metis prod.collapse)
      with d mem have "snd e = qs" by (metis eq_key_imp_eq_value)
      with that(2) show ?thesis by (metis prod.collapse)
    qed
    have "set m = insert (filename q, qs) {e \<in> set m. fst e \<noteq> filename q}"
      using mem uniq by blast
    then have "(\<Union>entry \<in> set m. set (snd entry))
        = (\<Union>entry \<in> insert (filename q, qs) {e \<in> set m. fst e \<noteq> filename q}. set (snd entry))"
      by simp
    then show ?thesis by simp
  next
    case False
    with qs(2) have "qs = []" by simp
    moreover from False have "{e \<in> set m. fst e \<noteq> filename q} = set m" by (rule set_absent_key)
    ultimately show ?thesis by simp
  qed
  show "(\<Union>entry \<in> set (groupStep q m). set (snd entry)) = insert q (\<Union>entry \<in> set m. set (snd entry))"
    unfolding old qs(3) by auto
qed

lemma fold_groupStep_grouped:
  "grouped m \<Longrightarrow> grouped (fold groupStep qs m)
     \<and> (\<Union>entry \<in> set (fold groupStep qs m). set (snd entry))
         = (\<Union>entry \<in> set m. set (snd entry)) \<union> set qs"
proof (induction qs arbitrary: m)
  case Nil
  then show ?case by simp
next
  case (Cons q qs)
  note g = groupStep_grouped [OF Cons.prems, of q]
  from Cons.IH [OF g(1)] show ?case by (simp add: g(2))
qed

lemma groupQueries_grouped:
  "grouped (groupQueries qs)" "set (concat (map snd (groupQueries qs))) = set qs"
  using fold_groupStep_grouped [of "[]" qs] by (simp_all add: groupQueries_def grouped_def)

lemma firstError_None_iff:
  "firstError ext em qs = None \<longleftrightarrow> (\<forall>q \<in> set qs. emissionError ext em q = None)"
  by (induction qs) (simp_all add: firstError_Nil firstError_Cons split: option.splits)

lemma codegen_cases:
  "(case codegen ext input of
      Inl e \<Rightarrow> firstError ext (buildEnumMap input) (processingOrder input) = Some e
    | Inr files \<Rightarrow> firstError ext (buildEnumMap input) (processingOrder input) = None)"
proof -
  have "\<forall>entry \<in> set (groupQueries (queries input)). \<forall>q \<in> set (snd entry). filename q = fst entry"
    using groupQueries_grouped(1) [of "queries input"] by (simp add: grouped_def)
  from foldM_processFile [OF this, of ext "buildEnumMap input" "([], [])"]
  show ?thesis
    by (auto simp: codegen_def processingOrder_def split: sum.splits)
qed

lemma emissionError_shape:
  assumes "emissionError ext enumMap query = Some e"
  shows "(query_name query = [] \<and> e = TypeError)
      \<or> (\<exists>k ns. assertUniqueNames \<lparr>kind = k, queryName = query_name query,
             fileName = filename query, names = ns\<rparr> = Inl e)
      \<or> (\<exists>col msg. (col \<in> par_column ` set (params query) \<or> col \<in> Some ` set (columns query))
            \<and> columnType (upperCase ext) enumMap col = Inl (Error msg)
            \<and> e = Error (''Error in query '' @ dquote @ query_name query @ dquote @ '' (''
                          @ filename query @ ''): '' @ msg))
      \<or> (cmd query = '':execlastid''
            \<and> e = Error ''postgres driver does not support :execlastid'')"
proof -
  from assms have pq: "processQuery ext enumMap (filename query) query ([], [], []) = Inl e"
    by (simp add: emissionError_def split: sum.splits)
  show ?thesis
  proof (cases "query_name query")
    case Nil
    with pq show ?thesis by (simp add: processQuery_def)
  next
    case (Cons c cs)
    show ?thesis
    proof (cases "argsStage ext enumMap (filename query) query ([], [], [])")
      case (Inl a)
      with pq Cons have "a = e" by (simp add: processQuery_def)
      with argsStage_Inl [of ext enumMap "filename query" query "([], [], [])" e] Inl
      show ?thesis by blast
    next
      case (Inr r)
      obtain ai st1 where r: "r = (ai, st1)" by (cases r)
      show ?thesis
      proof (cases "rowStage ext enumMap (filename query) query st1")
        case (Inl a)
        with pq Cons Inr r have "a = e" by (simp add: processQuery_def)
        with rowStage_Inl [of ext enumMap "filename query" query st1 e] Inl
        show ?thesis by blast
      next
        case (Inr r2)
        obtain ri st2 where r2: "r2 = (ri, st2)" by (cases r2)
        from pq Cons \<open>argsStage ext enumMap (filename query) query ([], [], []) = Inr r\<close> r Inr r2
        have "declStage ext (lowerChar c # cs) query ai ri st2 = Inl e"
          by (simp add: processQuery_def)
        from declStage_Inl [OF this] show ?thesis by blast
      qed
    qed
  qed
qed

text \<open>The error of each stage, and of a query, with no reference to the state of the loop.\<close>

lemma propertySignatures_typeErrors:
  "propertySignatures nameOf (\<lambda>x. columnType up em (f x)) i xs = Inl e
     \<longleftrightarrow> (\<exists>msg rest. typeErrors up em (map f xs) = msg # rest \<and> e = Error msg)"
proof (induction xs arbitrary: i)
  case Nil
  show ?case by simp
next
  case (Cons x xs)
  show ?case
  proof (cases "columnType up em (f x)")
    case (Inl a)
    from columnType_Inl [OF Inl] obtain m where "a = Error m" by blast
    with Inl show ?thesis by auto
  next
    case (Inr t)
    with Cons.IH [of "Suc i"] show ?thesis by (auto split: sum.splits)
  qed
qed

lemma propertySignatures_Inr_typeErrors:
  "(\<exists>sigs. propertySignatures nameOf (\<lambda>x. columnType up em (f x)) i xs = Inr sigs)
     \<longleftrightarrow> typeErrors up em (map f xs) = []"
proof -
  have "(\<exists>sigs. propertySignatures nameOf (\<lambda>x. columnType up em (f x)) i xs = Inr sigs)
      \<longleftrightarrow> \<not> (\<exists>e. propertySignatures nameOf (\<lambda>x. columnType up em (f x)) i xs = Inl e)"
    by (cases "propertySignatures nameOf (\<lambda>x. columnType up em (f x)) i xs") auto
  then show ?thesis
    by (simp add: propertySignatures_typeErrors) (cases "typeErrors up em (map f xs)"; simp)
qed

lemma assertUniqueNames_no_names:
  "names options = [] \<Longrightarrow> assertUniqueNames options = Inr ()"
  by (simp add: assertUniqueNames_def duplicatesOf_def countNames_def)

lemma argsStage_raised:
  "(case argsStage ext em fname query st of Inl e \<Rightarrow> Some e | Inr r \<Rightarrow> None) =
     (case assertUniqueNames
             \<lparr>kind = KArgument, queryName = query_name query, fileName = fname,
              names = indexedNames (\<lambda>i p. argName ext i (par_column p)) (params query)\<rparr> of
        Inl e \<Rightarrow> Some e
      | Inr u \<Rightarrow>
          (case typeErrors (upperCase ext) em (map par_column (params query)) of
             msg # rest \<Rightarrow>
               Some (Error (''Error in query '' @ dquote @ query_name query @ dquote @ '' (''
                            @ fname @ ''): '' @ msg))
           | [] \<Rightarrow> None))"
proof (cases "params query = []")
  case True
  then show ?thesis
    by (simp add: argsStage_def assertUniqueNames_no_names indexedNames_def)
next
  case False
  let ?A = "assertUniqueNames
             \<lparr>kind = KArgument, queryName = query_name query, fileName = fname,
              names = indexedNames (\<lambda>i p. argName ext i (par_column p)) (params query)\<rparr>"
  let ?P = "propertySignatures (\<lambda>i p. argName ext i (par_column p))
              (\<lambda>p. columnType (upperCase ext) em (par_column p)) 0 (params query)"
  show ?thesis
  proof (cases ?A)
    case (Inl a)
    with False show ?thesis by (simp add: argsStage_def)
  next
    case (Inr u)
    show ?thesis
    proof (cases ?P)
      case (Inl err)
      from Inl propertySignatures_typeErrors [of _ "upperCase ext" em par_column 0 "params query" err]
      obtain msg rest where
        "typeErrors (upperCase ext) em (map par_column (params query)) = msg # rest" "err = Error msg"
        by blast
      with False Inr Inl show ?thesis
        by (simp add: argsStage_def wrapError_Error)
    next
      case (Inr sigs)
      then have "typeErrors (upperCase ext) em (map par_column (params query)) = []"
        using propertySignatures_Inr_typeErrors
          [of "\<lambda>i p. argName ext i (par_column p)" "upperCase ext" em par_column 0 "params query"]
        by blast
      with False \<open>?A = Inr u\<close> Inr show ?thesis
        by (simp add: argsStage_def Let_def)
    qed
  qed
qed

lemma rowStage_raised:
  "(case rowStage ext em fname query st of Inl e \<Rightarrow> Some e | Inr r \<Rightarrow> None) =
     (case assertUniqueNames
             \<lparr>kind = KColumn, queryName = query_name query, fileName = fname,
              names = indexedNames (colName ext) (columns query)\<rparr> of
        Inl e \<Rightarrow> Some e
      | Inr u \<Rightarrow>
          (case typeErrors (upperCase ext) em (map Some (columns query)) of
             msg # rest \<Rightarrow>
               Some (Error (''Error in query '' @ dquote @ query_name query @ dquote @ '' (''
                            @ fname @ ''): '' @ msg))
           | [] \<Rightarrow> None))"
proof (cases "columns query = []")
  case True
  then show ?thesis
    by (simp add: rowStage_def assertUniqueNames_no_names indexedNames_def)
next
  case False
  let ?A = "assertUniqueNames
             \<lparr>kind = KColumn, queryName = query_name query, fileName = fname,
              names = indexedNames (colName ext) (columns query)\<rparr>"
  let ?P = "propertySignatures (colName ext)
              (\<lambda>c. columnType (upperCase ext) em (Some c)) 0 (columns query)"
  show ?thesis
  proof (cases ?A)
    case (Inl a)
    with False show ?thesis by (simp add: rowStage_def)
  next
    case (Inr u)
    show ?thesis
    proof (cases ?P)
      case (Inl err)
      from Inl propertySignatures_typeErrors [of _ "upperCase ext" em Some 0 "columns query" err]
      obtain msg rest where
        "typeErrors (upperCase ext) em (map Some (columns query)) = msg # rest" "err = Error msg"
        by blast
      with False Inr Inl show ?thesis
        by (simp add: rowStage_def wrapError_Error)
    next
      case (Inr sigs)
      then have "typeErrors (upperCase ext) em (map Some (columns query)) = []"
        using propertySignatures_Inr_typeErrors
          [of "colName ext" "upperCase ext" em Some 0 "columns query"]
        by blast
      with False \<open>?A = Inr u\<close> Inr show ?thesis
        by (simp add: rowStage_def Let_def)
    qed
  qed
qed

lemma declStage_raised:
  "(case declStage ext lowerName query ai ri st of Inl e \<Rightarrow> Some e | Inr r \<Rightarrow> None) =
     (if cmd query = '':execlastid''
      then Some (Error ''postgres driver does not support :execlastid'') else None)"
  by (simp add: declStage_def Let_def execlastidDecl_def)

lemma emissionError_eq:
  "emissionError ext enumMap query =
     (if query_name query = [] then Some TypeError
      else
        case assertUniqueNames
               \<lparr>kind = KArgument, queryName = query_name query, fileName = filename query,
                names = indexedNames (\<lambda>i p. argName ext i (par_column p)) (params query)\<rparr> of
          Inl e \<Rightarrow> Some e
        | Inr u \<Rightarrow>
        (case typeErrors (upperCase ext) enumMap (map par_column (params query)) of
          msg # rest \<Rightarrow>
            Some (Error (''Error in query '' @ dquote @ query_name query @ dquote @ '' (''
                         @ filename query @ ''): '' @ msg))
        | [] \<Rightarrow>
        (case assertUniqueNames
               \<lparr>kind = KColumn, queryName = query_name query, fileName = filename query,
                names = indexedNames (colName ext) (columns query)\<rparr> of
          Inl e \<Rightarrow> Some e
        | Inr u \<Rightarrow>
        (case typeErrors (upperCase ext) enumMap (map Some (columns query)) of
          msg # rest \<Rightarrow>
            Some (Error (''Error in query '' @ dquote @ query_name query @ dquote @ '' (''
                         @ filename query @ ''): '' @ msg))
        | [] \<Rightarrow>
            if cmd query = '':execlastid''
            then Some (Error ''postgres driver does not support :execlastid'')
            else None))))"
proof (cases "query_name query")
  case Nil
  then show ?thesis by (simp add: emissionError_def processQuery_def)
next
  case (Cons c cs)
  let ?st = "([], [], []) :: genState"
  note a = argsStage_raised [of ext enumMap "filename query" query ?st]
  show ?thesis
  proof (cases "argsStage ext enumMap (filename query) query ?st")
    case (Inl e)
    with a Cons show ?thesis
      by (auto simp: emissionError_def processQuery_def split: sum.splits list.splits)
  next
    case (Inr r)
    obtain ai st1 where r: "r = (ai, st1)" by (cases r)
    note b = rowStage_raised [of ext enumMap "filename query" query st1]
    show ?thesis
    proof (cases "rowStage ext enumMap (filename query) query st1")
      case (Inl e)
      with a b Cons \<open>argsStage ext enumMap (filename query) query ?st = Inr r\<close> r show ?thesis
        by (auto simp: emissionError_def processQuery_def split: sum.splits list.splits)
    next
      case (Inr r2)
      obtain ri st2 where r2: "r2 = (ri, st2)" by (cases r2)
      note d = declStage_raised [of ext "lowerChar c # cs" query ai ri st2]
      from a b d Cons \<open>argsStage ext enumMap (filename query) query ?st = Inr r\<close> r Inr r2
      show ?thesis
        by (auto simp: emissionError_def processQuery_def split: sum.splits list.splits)
    qed
  qed
qed

lemma emissionError_expected: "emissionError ext enumMap query = expectedError ext enumMap query"
  by (simp only: emissionError_eq expectedError_def indexedNames_def)

lemma processQuery_expected:
  "(case processQuery ext enumMap (filename query) query st of Inl e \<Rightarrow> Some e | Inr st' \<Rightarrow> None)
     = expectedError ext enumMap query"
proof (cases "processQuery ext enumMap (filename query) query st")
  case (Inl e)
  then have "emissionError ext enumMap query = Some e" by (simp only: processQuery_Inl_iff)
  with Inl show ?thesis by (simp add: emissionError_expected)
next
  case (Inr st')
  have "emissionError ext enumMap query = None"
  proof (cases "emissionError ext enumMap query")
    case (Some e)
    then have "processQuery ext enumMap (filename query) query st = Inl e"
      by (simp only: processQuery_Inl_iff)
    with Inr show ?thesis by simp
  qed simp
  with Inr show ?thesis by (simp add: emissionError_expected)
qed

text \<open>The order of processing.\<close>

lemma groupQueries_snoc: "groupQueries (qs @ [q]) = groupStep q (groupQueries qs)"
  by (simp add: groupQueries_def)

lemma groupQueries_key_order:
  "map fst (groupQueries qs) = rev (remdups (rev (map filename qs)))"
proof (induction qs rule: rev_induct)
  case Nil
  show ?case by (simp add: groupQueries_def)
next
  case (snoc q qs)
  have "map fst (groupQueries (qs @ [q])) =
      (if filename q \<in> filename ` set qs then map fst (groupQueries qs)
       else map fst (groupQueries qs) @ [filename q])"
    by (simp only: groupQueries_snoc groupStep_keys groupQueries_keys)
  with snoc.IH show ?case by simp
qed

lemma groupQueries_entries:
  "(f, l) \<in> set (groupQueries qs) \<Longrightarrow> l = filter (\<lambda>q. filename q = f) qs"
proof (induction qs arbitrary: f l rule: rev_induct)
  case Nil
  then show ?case by (simp add: groupQueries_def)
next
  case (snoc q qs)
  define m where "m = groupQueries qs"
  have d: "distinct (map fst m)"
    using groupQueries_grouped(1) [of qs] by (simp add: grouped_def m_def)
  from groupStep_set [OF d, of q] obtain qs0 where
    qs0: "filename q \<in> fst ` set m \<longrightarrow> (filename q, qs0) \<in> set m"
      "filename q \<notin> fst ` set m \<longrightarrow> qs0 = []"
      "set (groupStep q m) = insert (filename q, qs0 @ [q]) {e \<in> set m. fst e \<noteq> filename q}"
    by blast
  have old: "qs0 = filter (\<lambda>x. filename x = filename q) qs"
  proof (cases "filename q \<in> fst ` set m")
    case True
    with qs0(1) have "(filename q, qs0) \<in> set (groupQueries qs)" by (simp add: m_def)
    then show ?thesis by (rule snoc.IH)
  next
    case False
    then have "filename q \<notin> filename ` set qs" by (simp add: m_def groupQueries_keys)
    then have "\<forall>x \<in> set qs. filename x \<noteq> filename q"
      by (metis imageI)
    then have "filter (\<lambda>x. filename x = filename q) qs = []"
      by (simp add: filter_empty_conv)
    with False qs0(2) show ?thesis by simp
  qed
  from snoc.prems have "(f, l) \<in> set (groupStep q m)"
    by (simp only: groupQueries_snoc m_def)
  then consider "f = filename q" "l = qs0 @ [q]" | "(f, l) \<in> set m" "f \<noteq> filename q"
    unfolding qs0(3) by auto
  then show ?case
  proof cases
    case 1
    with old show ?thesis by simp
  next
    case 2
    from 2(1) have "l = filter (\<lambda>q. filename q = f) qs"
      unfolding m_def by (rule snoc.IH)
    with 2(2) show ?thesis by auto
  qed
qed

lemma processingOrder_eq: "processingOrder input = requestOrder (queries input)"
proof -
  define m where "m = groupQueries (queries input)"
  have "map snd m = map (\<lambda>e. filter (\<lambda>q. filename q = fst e) (queries input)) m"
    by (rule map_cong [OF refl]) (use groupQueries_entries [of _ _ "queries input"] in \<open>auto simp: m_def\<close>)
  also have "\<dots> = map (\<lambda>f. filter (\<lambda>q. filename q = f) (queries input)) (map fst m)"
    by (simp add: comp_def)
  finally show ?thesis
    by (simp only: processingOrder_def m_def groupQueries_key_order requestOrder_def)
qed

lemma codegen_expected:
  "(case find (\<lambda>q. expectedError ext (buildEnumMap input) q \<noteq> None) (requestOrder (queries input)) of
      None \<Rightarrow> \<exists>files. codegen ext input = Inr files
    | Some q \<Rightarrow> \<exists>e. expectedError ext (buildEnumMap input) q = Some e \<and> codegen ext input = Inl e)"
proof -
  let ?em = "buildEnumMap input"
  let ?qs = "requestOrder (queries input)"
  note c = codegen_cases [of ext input]
  have f: "firstError ext ?em (processingOrder input) =
      (case find (\<lambda>q. expectedError ext ?em q \<noteq> None) ?qs of
         None \<Rightarrow> None
       | Some q \<Rightarrow> expectedError ext ?em q)"
    by (simp only: firstError_def emissionError_expected processingOrder_eq)
  show ?thesis
  proof (cases "find (\<lambda>q. expectedError ext ?em q \<noteq> None) ?qs")
    case None
    with f have "firstError ext ?em (processingOrder input) = None" by simp
    with c None show ?thesis by (cases "codegen ext input") simp_all
  next
    case (Some q)
    then have "expectedError ext ?em q \<noteq> None" by (auto simp: find_Some_iff)
    then obtain e where e: "expectedError ext ?em q = Some e" by blast
    with f Some have "firstError ext ?em (processingOrder input) = Some e" by simp
    with c have "codegen ext input = Inl e" by (cases "codegen ext input") simp_all
    with Some e show ?thesis by simp
  qed
qed

text \<open>
  C9 (amended). Whatever the state of the loop, the emission of a query raises exactly the
  error of \<open>expectedError\<close>, and none when that is \<open>None\<close>: the runtime's \<open>TypeError\<close> for
  an empty query name; the ambiguous-name error of \<open>assertUniqueNames\<close>, as it is raised
  (it names the query and the file itself); the first error of \<open>columnType\<close> on a
  parameter or a column, wrapped as \<open>Error in query "<name>" (<filename>): <message>\<close>;
  or, for \<open>:execlastid\<close>, the unsupported-operation error as it is raised, not wrapped.
  No such error is suppressed. A run returns files when no query of the request has an
  error, and otherwise ends with the error of the first query that has one, in the order
  of processing (the files by their first query in the request, the queries of a file in
  the order of the request), and returns no file; every query of the request is in that
  order, so the run aborts exactly when some query has an error.
\<close>

theorem codegen_first_error_aborts:
  "(case processQuery ext enumMap (filename query) query st of Inl e \<Rightarrow> Some e | Inr st' \<Rightarrow> None)
     = expectedError ext enumMap query
   \<and> (case find (\<lambda>q. expectedError ext (buildEnumMap input) q \<noteq> None)
              (requestOrder (queries input)) of
        None \<Rightarrow> \<exists>files. codegen ext input = Inr files
      | Some q \<Rightarrow> \<exists>e. expectedError ext (buildEnumMap input) q = Some e
                    \<and> codegen ext input = Inl e)
   \<and> set (requestOrder (queries input)) = set (queries input)
   \<and> ((\<exists>e. codegen ext input = Inl e)
        \<longleftrightarrow> (\<exists>q \<in> set (queries input). expectedError ext (buildEnumMap input) q \<noteq> None))
   \<and> (\<forall>e. processQuery ext enumMap (filename query) query st = Inl e \<longrightarrow>
        (query_name query = [] \<and> e = TypeError)
      \<or> (\<exists>k ns. assertUniqueNames \<lparr>kind = k, queryName = query_name query,
             fileName = filename query, names = ns\<rparr> = Inl e)
      \<or> (\<exists>col msg. (col \<in> par_column ` set (params query) \<or> col \<in> Some ` set (columns query))
            \<and> columnType (upperCase ext) enumMap col = Inl (Error msg)
            \<and> e = Error (''Error in query '' @ dquote @ query_name query @ dquote @ '' (''
                          @ filename query @ ''): '' @ msg))
      \<or> (cmd query = '':execlastid''
            \<and> e = Error ''postgres driver does not support :execlastid''))"
proof -
  note c = codegen_cases [of ext input]
  have order: "set (requestOrder (queries input)) = set (queries input)"
    using groupQueries_grouped(2) [of "queries input"]
    by (simp only: processingOrder_eq [symmetric] processingOrder_def)
  have "(\<exists>e. codegen ext input = Inl e)
      \<longleftrightarrow> firstError ext (buildEnumMap input) (processingOrder input) \<noteq> None"
    using c by (cases "codegen ext input") auto
  then have abort: "(\<exists>e. codegen ext input = Inl e)
        \<longleftrightarrow> (\<exists>q \<in> set (queries input). expectedError ext (buildEnumMap input) q \<noteq> None)"
    by (simp add: firstError_None_iff processingOrder_eq order emissionError_expected)
  have shape: "(query_name query = [] \<and> e = TypeError)
      \<or> (\<exists>k ns. assertUniqueNames \<lparr>kind = k, queryName = query_name query,
             fileName = filename query, names = ns\<rparr> = Inl e)
      \<or> (\<exists>col msg. (col \<in> par_column ` set (params query) \<or> col \<in> Some ` set (columns query))
            \<and> columnType (upperCase ext) enumMap col = Inl (Error msg)
            \<and> e = Error (''Error in query '' @ dquote @ query_name query @ dquote @ '' (''
                          @ filename query @ ''): '' @ msg))
      \<or> (cmd query = '':execlastid''
            \<and> e = Error ''postgres driver does not support :execlastid'')"
    if "processQuery ext enumMap (filename query) query st = Inl e" for e
  proof -
    from that have "emissionError ext enumMap query = Some e"
      by (simp only: processQuery_Inl_iff)
    then show ?thesis by (rule emissionError_shape)
  qed
  from processQuery_expected [of ext enumMap query st] codegen_expected [of ext input]
    order abort shape
  show ?thesis by blast
qed

lemma listThings_error:
  "processQuery sampleExt [] ''query.sql'' listThings st =
     Inl (Error (''Error in query '' @ dquote @ ''ListThings'' @ dquote @ '' (query.sql): ''
                 @ unrecognizedMessage ''hstore'' attrsColumn))"
  by (simp add: codegen_eval_defs listThings_def attrsColumn_def wrapError_def errorMessage_def)

lemma createAuthor_error:
  "processQuery sampleExt [] ''query.sql'' createAuthor st =
     Inl (Error ''postgres driver does not support :execlastid'')"
  by (simp add: codegen_eval_defs createAuthor_def execlastidDecl_def)

lemma sample_requestOrder:
  "requestOrder [deleteAuthor, listThings] = [deleteAuthor, listThings]"
  by (simp add: requestOrder_def deleteAuthor_def listThings_def)

theorem codegen_first_error_aborts_witness:
  "processQuery sampleExt [] (filename listThings) listThings (preamble, [], []) =
     Inl (Error (''Error in query '' @ dquote @ ''ListThings'' @ dquote @ '' (query.sql): ''
                 @ unrecognizedMessage ''hstore'' attrsColumn))
   \<and> expectedError sampleExt [] listThings =
       Some (Error (''Error in query '' @ dquote @ ''ListThings'' @ dquote @ '' (query.sql): ''
                    @ unrecognizedMessage ''hstore'' attrsColumn))
   \<and> expectedError sampleExt [] deleteAuthor = None
   \<and> columnType sampleUpperCase [] (Some attrsColumn) = Inl (Error (unrecognizedMessage ''hstore'' attrsColumn))
   \<and> codegen sampleExt \<lparr>catalog = None, queries = [deleteAuthor, listThings]\<rparr> =
       Inl (Error (''Error in query '' @ dquote @ ''ListThings'' @ dquote @ '' (query.sql): ''
                   @ unrecognizedMessage ''hstore'' attrsColumn))"
proof -
  let ?input = "\<lparr>catalog = None, queries = [deleteAuthor, listThings]\<rparr>"
  let ?e = "Error (''Error in query '' @ dquote @ ''ListThings'' @ dquote @ '' (query.sql): ''
                   @ unrecognizedMessage ''hstore'' attrsColumn)"
  have em: "buildEnumMap ?input = []" by (simp add: buildEnumMap_def schemasOf_def)
  have f: "filename listThings = ''query.sql''" "filename deleteAuthor = ''query.sql''"
    by (simp_all add: listThings_def deleteAuthor_def)
  have pq: "processQuery sampleExt [] (filename listThings) listThings (preamble, [], []) = Inl ?e"
    by (simp only: f listThings_error)
  note t1 = codegen_first_error_aborts [of sampleExt "[]" listThings "(preamble, [], [])" ?input]
  note t2 = codegen_first_error_aborts [of sampleExt "[]" deleteAuthor "(preamble, [], [])" ?input]
  from t1 pq have e1: "expectedError sampleExt [] listThings = Some ?e" by simp
  from t2 deleteAuthor_nodes have e2: "expectedError sampleExt [] deleteAuthor = None"
    by (simp add: f)
  have ct: "columnType sampleUpperCase [] (Some attrsColumn) = Inl (Error (unrecognizedMessage ''hstore'' attrsColumn))"
    by (simp add: codegen_eval_defs attrsColumn_def)
  from t1 have "codegen sampleExt ?input = Inl ?e"
    by (simp add: em sample_requestOrder e1 e2)
  with pq e1 e2 ct show ?thesis by simp
qed

text \<open>
  The claim as stated fails for \<open>:execlastid\<close>: the run ends with the driver's message,
  which holds neither the query name nor the filename.
\<close>

theorem codegen_execlastid_unwrapped_counterexample:
  "cmd createAuthor = '':execlastid''
   \<and> codegen sampleExt \<lparr>catalog = None, queries = [createAuthor]\<rparr> =
       Inl (Error ''postgres driver does not support :execlastid'')
   \<and> \<not> sublist (query_name createAuthor) ''postgres driver does not support :execlastid''
   \<and> \<not> sublist (filename createAuthor) ''postgres driver does not support :execlastid''"
proof -
  have "groupQueries [createAuthor] = [(''query.sql'', [createAuthor])]"
    by (simp add: groupQueries_def groupStep_def map_has_def map_get_def createAuthor_def)
  then have "codegen sampleExt \<lparr>catalog = None, queries = [createAuthor]\<rparr> =
       Inl (Error ''postgres driver does not support :execlastid'')"
    by (simp add: codegen_def processFile_def createAuthor_error buildEnumMap_def schemasOf_def)
  moreover have "\<not> sublist ''CreateAuthor'' ''postgres driver does not support :execlastid''"
    by (simp add: sublist_code)
  moreover have "\<not> sublist ''query.sql'' ''postgres driver does not support :execlastid''"
    by (simp add: sublist_code)
  ultimately show ?thesis by (simp add: createAuthor_def)
qed

section \<open>Properties of the emitted :one logic\<close>

lemma elementOf_JArr [simp]: "elementOf (JArr xs) n = Some (elementAt xs n)"
  by (simp add: elementOf_def)

lemma eval_unsafeCall: "eval rt env (unsafeCall ext q ps) = Some JQuery"
  by (simp add: unsafeCall_def)

lemma buildTaggedTemplate_tagged:
  "\<exists>template. buildTaggedTemplate ext q ps = TaggedTemplateExpression (Identifier ''sql'') [] template"
  by (simp add: buildTaggedTemplate_def split_beta)

lemma eval_typed_template:
  "eval rt env (addTypeArgument (buildTaggedTemplate ext q ps) ri True) = Some JQuery"
proof -
  from buildTaggedTemplate_tagged [of ext q ps] obtain template where
    "buildTaggedTemplate ext q ps = TaggedTemplateExpression (Identifier ''sql'') [] template"
    by blast
  then show ?thesis by (simp add: addTypeArgument_def)
qed

lemma exec_lengthGuard:
  assumes "map_of env ''rows'' = Some (JArr rows)"
  shows "exec rt env (lengthGuard # rest) =
           (if length rows = 1 then exec rt env rest else Returned JNull)"
  using assms
  by (simp add: lengthGuard_def binary_def strictEquals_def isPrimitive_def truthy_def)

lemma eval_rowAccess:
  assumes "map_of env ''row'' = Some (JArr cells)"
  shows "\<exists>v. eval rt env (createRowAccessExpression c i) = Some v"
  using assms
  by (simp add: createRowAccessExpression_def Let_def binary_def)

lemma evalProperties_total:
  assumes "\<And>p. p \<in> set props \<Longrightarrow> \<exists>v. eval rt env (snd p) = Some v"
  shows "\<exists>vs. evalProperties rt env props = Some vs \<and> map fst vs = map fst props"
  using assms
proof (induction props)
  case Nil
  show ?case by simp
next
  case (Cons p props)
  from Cons.prems [of p] obtain v where v: "eval rt env (snd p) = Some v" by auto
  from Cons.IH Cons.prems obtain vs where
    "evalProperties rt env props = Some vs" "map fst vs = map fst props" by auto
  with v show ?case by simp
qed

lemma indexed_fst:
  "map fst (map (\<lambda>(i, col). (nameOf i col, f i col)) xs) = map (\<lambda>(i, col). nameOf i col) xs"
  by (induction xs) auto

text \<open>The shared positional driver: null unless there is exactly one row, then the mapped row.\<close>

lemma commonOneDecl_guarded:
  assumes "\<forall>r \<in> set (resultRows rt). \<exists>cells. r = JArr cells"
  shows "if length (resultRows rt) = 1
         then \<exists>fields. call rt (commonOneDecl ext f q ai ri ps cols) actuals = Returned (JObj fields)
                \<and> map fst fields = indexedNames (colName ext) cols
         else call rt (commonOneDecl ext f q ai ri ps cols) actuals = Returned JNull"
proof (cases "length (resultRows rt) = 1")
  case False
  then show ?thesis
    by (simp add: call_def commonOneDecl_def eval_unsafeCall exec_lengthGuard)
next
  case True
  then obtain r where rows: "resultRows rt = [r]" by (cases "resultRows rt") auto
  with assms obtain cells where r: "r = JArr cells" by auto
  define env where "env = (''row'', JArr cells) # (''rows'', JArr [r])
      # zip (map fst (commonFuncParamsDecl ai ps)) actuals"
  define props where "props = map (\<lambda>(i, col). (colName ext i col, createRowAccessExpression col i))
      (enumerate 0 cols)"
  have "\<exists>v. eval rt env (snd p) = Some v" if "p \<in> set props" for p
  proof -
    from that obtain i col where "snd p = createRowAccessExpression col i"
      by (auto simp: props_def)
    moreover have "map_of env ''row'' = Some (JArr cells)" by (simp add: env_def)
    ultimately show ?thesis using eval_rowAccess by simp
  qed
  from evalProperties_total [OF this] obtain vs where
    vs: "evalProperties rt env props = Some vs" "map fst vs = map fst props" by blast
  have "call rt (commonOneDecl ext f q ai ri ps cols) actuals = Returned (JObj vs)"
    using vs(1)
    by (simp add: call_def commonOneDecl_def eval_unsafeCall exec_lengthGuard rows r
          elementAt_def truthy_def env_def props_def)
  moreover have "map fst vs = indexedNames (colName ext) cols"
    by (auto simp: vs(2) props_def indexedNames_def)
  ultimately show ?thesis using True by simp
qed

text \<open>The SQLite driver: the same guard.\<close>

lemma sqliteOneDecl_guarded:
  assumes "\<forall>r \<in> set (resultRows rt). \<exists>cells. r = JArr cells"
  shows "if length (resultRows rt) = 1
         then \<exists>fields. call rt (sqliteOneDecl ext f q ai ri ps cols) actuals = Returned (JObj fields)
                \<and> map fst fields = indexedNames (colName ext) cols
         else call rt (sqliteOneDecl ext f q ai ri ps cols) actuals = Returned JNull"
proof (cases "length (resultRows rt) = 1")
  case False
  then show ?thesis
    by (simp add: call_def sqliteOneDecl_def exec_lengthGuard)
next
  case True
  then obtain r where rows: "resultRows rt = [r]" by (cases "resultRows rt") auto
  with assms obtain cells where r: "r = JArr cells" by auto
  define env where "env = (''row'', JArr cells) # (''rows'', JArr [r]) # (''stmt'', JStatement)
      # zip (map fst (sqliteFuncParamsDecl ai ps)) actuals"
  define props where "props = map (\<lambda>(i, col). (colName ext i col,
      AsExpression (ElementAccessExpression (Identifier ''row'') (NumericLiteral i))
        (sqliteColumnType (Some col)))) (enumerate 0 cols)"
  have "\<exists>v. eval rt env (snd p) = Some v" if "p \<in> set props" for p
    using that by (auto simp: props_def env_def)
  from evalProperties_total [OF this] obtain vs where
    vs: "evalProperties rt env props = Some vs" "map fst vs = map fst props" by blast
  have "call rt (sqliteOneDecl ext f q ai ri ps cols) actuals = Returned (JObj vs)"
    using vs(1)
    by (simp add: call_def sqliteOneDecl_def exec_lengthGuard rows r
          elementAt_def truthy_def env_def props_def)
  moreover have "map fst vs = indexedNames (colName ext) cols"
    by (auto simp: vs(2) props_def indexedNames_def)
  ultimately show ?thesis using True by simp
qed

text \<open>The \<open>sql.unsafe\<close> driver that casts the rows: the same guard, then the row itself.\<close>

lemma unsafeOneDecl_guarded:
  assumes "\<forall>r \<in> set (resultRows rt). \<exists>fields. r = JObj fields"
  shows "call rt (unsafeOneDecl ext f q ai ri ps cols) actuals =
           (if length (resultRows rt) = 1 then Returned (hd (resultRows rt)) else Returned JNull)"
proof (cases "length (resultRows rt) = 1")
  case False
  then show ?thesis
    by (simp add: call_def unsafeOneDecl_def eval_unsafeCall exec_lengthGuard)
next
  case True
  then obtain r where rows: "resultRows rt = [r]" by (cases "resultRows rt") auto
  with assms obtain fields where r: "r = JObj fields" by auto
  show ?thesis
    by (simp add: call_def unsafeOneDecl_def eval_unsafeCall exec_lengthGuard rows r
          elementAt_def binary_def)
qed

text \<open>The tagged-template driver: no guard, the first row of any result that has one.\<close>

lemma oneDecl_first_row:
  "call rt (oneDecl ext f q ai ri ps cols) actuals =
     Returned (case resultRows rt of
                 [] \<Rightarrow> JNull
               | r # rest \<Rightarrow> if r = JNull \<or> r = JUndefined then JNull else r)"
  by (cases "resultRows rt")
     (simp_all add: call_def oneDecl_def eval_typed_template elementAt_def binary_def)

text \<open>
  C1. The claim asks, of every driver, the null-equivalent whenever the row count is not
  exactly one. On a result set of two rows the function the tagged-template driver emits
  returns the first row; the functions of the \<open>sql.unsafe\<close> driver and of the shared
  positional driver return \<open>null\<close> there, as the claim says.
\<close>

theorem tagged_oneDecl_two_rows_returns_first:
  "call twoRows
     (oneDecl sampleExt ''getAuthor'' ''SELECT * FROM authors WHERE name = $1''
        (Some ''GetAuthorArgs'') ''GetAuthorRow''
        [\<lparr>number = 1, par_column = Some nameColumn\<rparr>] [idColumn])
     [JObj [], JObj [(''name'', JStr ''Ann'')]]
   = Returned (JObj [(''id'', JNum 1)])
   \<and> call twoRows
     (unsafeOneDecl sampleExt ''getAuthor'' ''getAuthorQuery''
        (Some ''GetAuthorArgs'') ''GetAuthorRow''
        [\<lparr>number = 1, par_column = Some nameColumn\<rparr>] [idColumn])
     [JObj [], JObj [(''name'', JStr ''Ann'')]]
   = Returned JNull
   \<and> call twoTuples
     (commonOneDecl sampleExt ''getAuthor'' ''getAuthorQuery''
        (Some ''GetAuthorArgs'') ''GetAuthorRow''
        [\<lparr>number = 1, par_column = Some nameColumn\<rparr>] [idColumn])
     [JObj [], JObj [(''name'', JStr ''Ann'')]]
   = Returned JNull"
proof -
  have "\<forall>r \<in> set (resultRows twoRows). \<exists>fields. r = JObj fields" by (simp add: twoRows_def)
  note u = unsafeOneDecl_guarded [OF this]
  have "\<forall>r \<in> set (resultRows twoTuples). \<exists>cells. r = JArr cells" by (simp add: twoTuples_def)
  note c = commonOneDecl_guarded [OF this]
  have "length (resultRows twoTuples) \<noteq> 1" by (simp add: twoTuples_def)
  with c [of sampleExt "''getAuthor''" "''getAuthorQuery''" "Some ''GetAuthorArgs''" "''GetAuthorRow''"
      "[\<lparr>number = 1, par_column = Some nameColumn\<rparr>]" "[idColumn]"
      "[JObj [], JObj [(''name'', JStr ''Ann'')]]"]
  have "call twoTuples
     (commonOneDecl sampleExt ''getAuthor'' ''getAuthorQuery''
        (Some ''GetAuthorArgs'') ''GetAuthorRow''
        [\<lparr>number = 1, par_column = Some nameColumn\<rparr>] [idColumn])
     [JObj [], JObj [(''name'', JStr ''Ann'')]] = Returned JNull"
    by simp
  then show ?thesis
    by (simp add: oneDecl_first_row u) (simp add: twoRows_def)
qed

end
